theory Spec2Isabelle
  imports Complex_Main "HOL-Library.Word" "HOL-Library.Log_Nat"
begin

text \<open>
  A model of \<^verbatim>\<open>hdd.cpp\<close>, the access-time simulator of a rotating disk with zoned
  recording: the constructor, the address decoder \<^verbatim>\<open>decode\<close>, the seek, wait and transfer
  times, and \<^verbatim>\<open>read\<close> and \<^verbatim>\<open>write\<close>, which move the head. The functions keep the names
  and the control flow of the source; every loop of the source is a function of its own.
  Console output is left out, except the error line of the constructor.
\<close>

section \<open>Machine numbers\<close>

text \<open>
  The simulator computes with \<^verbatim>\<open>uint32\<close>, \<^verbatim>\<open>uint64\<close> and \<^verbatim>\<open>double\<close>.
  The unsigned integers are words, so that every \<open>+\<close>, \<open>-\<close> and \<open>*\<close> below wraps as in C++.

  A \<^verbatim>\<open>double\<close> is a real number. Wherever the program converts a computed double back
  to an integer (the per-track sector count and the byte capacity), an arbitrarily small
  rounding error can change the integer, so there each arithmetic operation is followed by
  \<open>dbl\<close>, rounding to the nearest number with a 53-bit significand, ties to even
  (IEEE 754 binary64; the exponent range is not limited, infinities and NaN are not
  represented). Time values are only added up and returned: they are kept as exact reals.
  A conversion of an out-of-range double to an unsigned integer, undefined in C++, is
  taken modulo the word size, which is what the conversion through a 64-bit register gives
  on the common platforms. An integer division by zero, undefined in C++ and a trap on the
  common platforms, returns nothing: the result of the call is \<open>None\<close>, as for a loop that
  does not end. A division of doubles by zero is infinite or NaN in C++; here the quotient
  is 0, and it is said below where that can occur.
\<close>

type_synonym uint32 = "32 word"
type_synonym uint64 = "64 word"

definition round_even :: "real \<Rightarrow> int" where
  "round_even r =
     (let f = \<lfloor>r\<rfloor>; fr = r - of_int f
      in if fr < 1 / 2 then f else if 1 / 2 < fr then f + 1
         else if even f then f else f + 1)"

text \<open>The binary exponent \<open>e\<close> of a positive real: \<open>2 powi e \<le> x < 2 powi (e + 1)\<close>.\<close>

definition binary_exponent :: "real \<Rightarrow> int" where
  "binary_exponent x =
     (if 1 \<le> x then bitlen \<lfloor>x\<rfloor> - 1 else - bitlen (\<lceil>1 / x\<rceil> - 1))"

definition scale2 :: "real \<Rightarrow> int \<Rightarrow> real" where
  "scale2 x e = (if 0 \<le> e then x * 2 ^ nat e else x / 2 ^ nat (- e))"

definition dbl_pos :: "real \<Rightarrow> real" where
  "dbl_pos x =
     (let e = binary_exponent x
      in scale2 (of_int (round_even (scale2 x (52 - e)))) (e - 52))"

definition dbl :: "real \<Rightarrow> real" where
  "dbl x = (if x = 0 then 0 else if x < 0 then - dbl_pos (- x) else dbl_pos x)"

definition to_uint32 :: "real \<Rightarrow> uint32" where
  "to_uint32 x = word_of_int \<lfloor>x\<rfloor>"

definition to_uint64 :: "real \<Rightarrow> uint64" where
  "to_uint64 x = word_of_int \<lfloor>x\<rfloor>"

definition of_uint32 :: "uint32 \<Rightarrow> real" where
  "of_uint32 w = real (unat w)"

lemma unat_inc: "(i::'a::len word) < m \<Longrightarrow> unat (i + 1) = unat i + 1"
  by (simp add: word_less_nat_alt unat_word_ariths) (metis unsigned_less mod_less less_trans_Suc)

lemma unat_inc_measure: "(i::'a::len word) < m \<Longrightarrow> unat m - unat (i + 1) < unat m - unat i"
  by (frule unat_inc) (simp add: word_less_nat_alt)

section \<open>The device\<close>

text \<open>
  The header \<^verbatim>\<open>hdd.h\<close> is not among the sources. The fields of the class and of
  \<^verbatim>\<open>HDD_Position\<close> are those \<^verbatim>\<open>hdd.cpp\<close> uses (without the leading underscore), with
  the types their uses there need: the sector gradient and the capacity (in GB) are doubles,
  the head position and the position components are \<^verbatim>\<open>uint32\<close>. The class does not store
  the number of tracks.
\<close>

record HDD_Position =
  surface :: uint32
  track :: uint32
  sector :: uint32

record hdd =
  surfaces :: uint32
  rpm :: uint32
  sector_size :: uint32
  seek_overhead :: real
  seek_per_track :: real
  verbose :: bool
  sectors_innermost_track :: uint32
  sectors_diff :: real
  capacity :: real
  head_pos :: uint32
  target_pos :: HDD_Position

text \<open>
  The failure kinds of the specification. No function of \<^verbatim>\<open>hdd.cpp\<close> throws or returns
  an error code: a result is \<open>Inr\<close> wherever the C++ function returns its value.
\<close>

datatype hdd_error = InvalidGeometry | OutOfRange

text \<open>
  The number of sectors on a track, the expression
  \<^verbatim>\<open>(uint32) floor((double)_sectors_innermost_track + (_sectors_diff * track))\<close>
  of the constructor, \<^verbatim>\<open>decode\<close>, \<^verbatim>\<open>read_time\<close> and \<^verbatim>\<open>write_time\<close>.
\<close>

definition track_sector_of :: "uint32 \<Rightarrow> real \<Rightarrow> uint32 \<Rightarrow> uint32" where
  "track_sector_of innermost diff t =
     to_uint32 (dbl (of_uint32 innermost + dbl (diff * of_uint32 t)))"

subsection \<open>Construction\<close>

text \<open>The loop \<^verbatim>\<open>for (int i = 0; i < tracks_per_surface; i++) total_sector += ...\<close>;
  the comparison converts \<^verbatim>\<open>i\<close> to unsigned. The counter is a \<^verbatim>\<open>uint32\<close> here: the two
  agree for fewer than \<open>2^31\<close> tracks, and with more the \<^verbatim>\<open>int\<close> of the source overflows,
  which is undefined in C++.\<close>

function total_sector_loop :: "uint32 \<Rightarrow> real \<Rightarrow> uint32 \<Rightarrow> uint32 \<Rightarrow> uint32 \<Rightarrow> uint32" where
  "total_sector_loop innermost diff tracks_per_surface i total_sector =
     (if i < tracks_per_surface
      then total_sector_loop innermost diff tracks_per_surface (i + 1)
             (total_sector + track_sector_of innermost diff i)
      else total_sector)"
  by pat_completeness auto
termination
  by (relation "measure (\<lambda>(innermost, diff, tracks, i, total). unat tracks - unat i)")
    (simp_all add: unat_inc_measure)

definition error_line :: string where
  "error_line = ''Error: outermost track should contain more sectors than innermost''"

text \<open>
  The constructor. It returns what it printed as an error and the device; the information
  block it prints afterwards is left out. \<^verbatim>\<open>_target_pos\<close> is not initialised by the
  constructor and is written by \<^verbatim>\<open>decode\<close> before it is first read; it starts as zero
  here. With a single track the C++ gradient is a division by zero (infinite or NaN), which
  a real number does not represent: the quotient is 0 here, and nothing below is said about
  the gradient or the capacity of such a device.
\<close>

definition HDD_new ::
  "uint32 \<Rightarrow> uint32 \<Rightarrow> uint32 \<Rightarrow> uint32 \<Rightarrow> uint32 \<Rightarrow> uint32 \<Rightarrow> real \<Rightarrow> real \<Rightarrow> bool
    \<Rightarrow> hdd_error + (string list \<times> hdd)" where
  "HDD_new surfaces' tracks_per_surface sectors_innermost sectors_outermost rpm' sector_size'
      seek_overhead' seek_per_track' verbose' =
     (let out = (if sectors_outermost \<le> sectors_innermost then [error_line] else []);
          diff = dbl (of_uint32 (sectors_outermost - sectors_innermost)
                      / of_uint32 (tracks_per_surface - 1));
          total_sector = total_sector_loop sectors_innermost diff tracks_per_surface 0 0;
          total_sector = total_sector * surfaces'
      in Inr (out,
           \<lparr>surfaces = surfaces', rpm = rpm', sector_size = sector_size',
            seek_overhead = seek_overhead', seek_per_track = seek_per_track',
            verbose = verbose', sectors_innermost_track = sectors_innermost,
            sectors_diff = diff,
            capacity = dbl (dbl (of_uint32 total_sector / 1000000000) * of_uint32 sector_size'),
            head_pos = 0,
            target_pos = \<lparr>surface = 0, track = 0, sector = 0\<rparr>\<rparr>))"

subsection \<open>Address decoding\<close>

text \<open>The first loop of \<^verbatim>\<open>decode\<close>, \<^verbatim>\<open>while (1)\<close>: it returns the track index and the
  running total at the \<^verbatim>\<open>break\<close>.\<close>

partial_function (option) track_loop ::
  "hdd \<Rightarrow> uint32 \<Rightarrow> uint32 \<Rightarrow> uint32 \<Rightarrow> (uint32 \<times> uint32) option" where
  "track_loop d block_index track_index total_sector =
     (let track_sector = track_sector_of (sectors_innermost_track d) (sectors_diff d) track_index;
          total_sector = total_sector + track_sector * surfaces d
      in if total_sector - 1 \<ge> block_index then Some (track_index, total_sector)
         else track_loop d block_index (track_index + 1) total_sector)"

declare track_loop.simps [code]

text \<open>The inner \<^verbatim>\<open>for\<close> loop over the surfaces, with its \<^verbatim>\<open>break\<close>.\<close>

function surface_loop ::
  "uint32 \<Rightarrow> uint32 \<Rightarrow> uint32 \<Rightarrow> uint32 \<Rightarrow> bool \<Rightarrow> uint32 \<times> uint32 \<times> bool" where
  "surface_loop surfs block_index surface_index total_sector end_flag =
     (if surface_index < surfs
      then (if total_sector \<ge> block_index then (surface_index, total_sector, False)
            else surface_loop surfs block_index (surface_index + 1) (total_sector + 1) end_flag)
      else (surface_index, total_sector, end_flag))"
  by pat_completeness auto
termination
  by (relation "measure (\<lambda>(surfs, block, si, total, ef). unat surfs - unat si)")
    (simp_all add: unat_inc_measure)

text \<open>The second \<^verbatim>\<open>while\<close> loop of \<^verbatim>\<open>decode\<close>. (\<^verbatim>\<open>surface_index % _surfaces\<close> is
  reached only after the \<^verbatim>\<open>for\<close> loop has run, so with at least one surface.)\<close>

partial_function (option) sector_loop ::
  "uint32 \<Rightarrow> uint32 \<Rightarrow> uint32 \<Rightarrow> uint32 \<Rightarrow> uint32 \<Rightarrow> uint32 \<Rightarrow> bool
    \<Rightarrow> (uint32 \<times> uint32) option" where
  "sector_loop surfs track_sector block_index surface_index sector_index total_sector end_flag =
     (if sector_index < track_sector \<and> total_sector < block_index
      then (case surface_loop surfs block_index 0 total_sector end_flag of
              (surface_index, total_sector, end_flag) \<Rightarrow>
                if end_flag
                then sector_loop surfs track_sector block_index (surface_index mod surfs)
                       (sector_index + 1) total_sector end_flag
                else sector_loop surfs track_sector block_index surface_index
                       sector_index total_sector end_flag)
      else Some (surface_index, sector_index))"

declare sector_loop.simps [code]

text \<open>
  \<^verbatim>\<open>decode\<close> returns \<^verbatim>\<open>false\<close> (\<open>Some None\<close>) or \<^verbatim>\<open>true\<close> with the position written to
  \<^verbatim>\<open>*pos\<close> (\<open>Some (Some pos)\<close>); \<open>None\<close> is a call that does not return: a loop that does
  not end, or the division \<^verbatim>\<open>address / _sector_size\<close> by a sector size of zero, which comes
  after the range check. The diagnostic \<^verbatim>\<open>max_access\<close> it prints is left out.
\<close>

definition decode :: "hdd \<Rightarrow> uint64 \<Rightarrow> HDD_Position option option" where
  "decode d address =
     (if address < 0 \<or> address > to_uint64 (dbl (capacity d * 1000000000)) then Some None
      else if sector_size d = 0 then None
      else
        let block_index = (ucast (address div ucast (sector_size d)) :: uint32)
        in case track_loop d block_index 0 0 of
             None \<Rightarrow> None
           | Some (track_index, total_sector) \<Rightarrow>
               let track_sector =
                     track_sector_of (sectors_innermost_track d) (sectors_diff d) track_index;
                   total_sector = total_sector - track_sector * surfaces d
               in (case sector_loop (surfaces d) track_sector block_index 0 0 total_sector True of
                     None \<Rightarrow> None
                   | Some (surface_index, sector_index) \<Rightarrow>
                       Some (Some \<lparr>surface = surface_index, track = track_index,
                                    sector = sector_index\<rparr>)))"

subsection \<open>Access times\<close>

definition seek_time :: "hdd \<Rightarrow> uint32 \<Rightarrow> uint32 \<Rightarrow> real" where
  "seek_time d from_track to_track =
     (if from_track = to_track then 0
      else \<bar>of_uint32 to_track - of_uint32 from_track\<bar> * seek_per_track d + seek_overhead d)"

text \<open>The average rotational latency. With \<^verbatim>\<open>_rpm\<close> zero, which the constructor accepts,
  the C++ quotient \<^verbatim>\<open>1/_rpm\<close> is infinite; it is 0 here. The same holds for the price of a
  sector in the loop below, also on a track without sectors.\<close>

definition wait_time :: "hdd \<Rightarrow> real" where
  "wait_time d = (1 / 2) * (1 / of_uint32 (rpm d)) * 60"

text \<open>The \<^verbatim>\<open>for\<close> loop of \<^verbatim>\<open>read_time\<close> and \<^verbatim>\<open>write_time\<close>: it returns the time and the
  sectors that are left.\<close>

function access_loop ::
  "hdd \<Rightarrow> uint32 \<Rightarrow> uint32 \<Rightarrow> uint32 \<Rightarrow> real \<Rightarrow> uint64 \<Rightarrow> real \<times> uint64" where
  "access_loop d track_sector max_access rd time sectors =
     (if sectors > 0 \<and> rd < max_access
      then access_loop d track_sector max_access (rd + 1)
             (time + (1 / of_uint32 (rpm d)) * (1 / of_uint32 track_sector) * 60) (sectors - 1)
      else (time, sectors))"
  by pat_completeness auto
termination
  by (relation "measure (\<lambda>(d, ts, max_access, rd, time, sectors). unat max_access - unat rd)")
    (simp_all add: unat_inc_measure)

text \<open>The \<^verbatim>\<open>while (1)\<close> loop, the same text in \<^verbatim>\<open>read_time\<close> and \<^verbatim>\<open>write_time\<close>: it
  returns the time and the position reached.\<close>

partial_function (option) track_walk ::
  "hdd \<Rightarrow> HDD_Position \<Rightarrow> real \<Rightarrow> uint64 \<Rightarrow> (real \<times> HDD_Position) option" where
  "track_walk d curr_pos time sectors =
     (let track_sector =
            track_sector_of (sectors_innermost_track d) (sectors_diff d) (track curr_pos);
          max_access = ((track_sector - (sector curr_pos + 1)) * surfaces d)
                       + (surfaces d - surface curr_pos)
      in case access_loop d track_sector max_access 0 time sectors of
           (time, sectors) \<Rightarrow>
             if sectors \<le> 0 then Some (time, curr_pos)
             else
               let curr_pos = \<lparr>surface = 0, track = track curr_pos + 1, sector = 0\<rparr>
               in track_walk d curr_pos
                    (time + (seek_time d (track curr_pos) (track curr_pos + 1) + wait_time d))
                    sectors)"

declare track_walk.simps [code]

definition read_time :: "hdd \<Rightarrow> uint64 \<Rightarrow> (real \<times> hdd) option" where
  "read_time d sectors =
     (case track_walk d (target_pos d) 0 sectors of
        None \<Rightarrow> None
      | Some (time, curr_pos) \<Rightarrow> Some (time, d\<lparr>head_pos := track curr_pos\<rparr>))"

definition write_time :: "hdd \<Rightarrow> uint64 \<Rightarrow> (real \<times> hdd) option" where
  "write_time d sectors =
     (case track_walk d (target_pos d) 0 sectors of
        None \<Rightarrow> None
      | Some (time, curr_pos) \<Rightarrow> Some (time, d\<lparr>head_pos := track curr_pos\<rparr>))"

subsection \<open>Read and write\<close>

text \<open>
  \<^verbatim>\<open>HDD::read\<close> and \<^verbatim>\<open>HDD::write\<close> return the new time stamp and the device;
  \<open>None\<close> is a call that does not return: a loop that does not end, or the division
  \<^verbatim>\<open>size / _sector_size\<close> by a sector size of zero, which comes first, before \<^verbatim>\<open>decode\<close>
  is called. \<^verbatim>\<open>decode\<close> writes to \<^verbatim>\<open>_target_pos\<close>. The operands of the sum
  \<^verbatim>\<open>seek_time(_head_pos, ...) + wait_time() + read_time(sectors)\<close> are evaluated from left
  to right: the seek time is taken from the head position before \<^verbatim>\<open>read_time\<close> moves it.
  The sector count is narrowed to \<^verbatim>\<open>uint32\<close> and widened again for \<^verbatim>\<open>read_time\<close>.
  \<^verbatim>\<open>write\<close> calls \<^verbatim>\<open>read_time\<close> too.
\<close>

definition HDD_read :: "hdd \<Rightarrow> real \<Rightarrow> uint64 \<Rightarrow> uint64 \<Rightarrow> ((hdd_error + real) \<times> hdd) option" where
  "HDD_read d ts address sz =
     (if sector_size d = 0 then None
      else
        let sectors = (ucast (sz div ucast (sector_size d)) :: uint32)
        in case decode d address of
             None \<Rightarrow> None
           | Some None \<Rightarrow> Some (Inr ts, d)
           | Some (Some pos) \<Rightarrow>
               let d = d\<lparr>target_pos := pos\<rparr>;
                   seek = seek_time d (head_pos d) (track (target_pos d));
                   wait = wait_time d
               in (case read_time d (ucast sectors) of
                     None \<Rightarrow> None
                   | Some (time, d) \<Rightarrow> Some (Inr (ts + (seek + wait + time)), d)))"

definition HDD_write :: "hdd \<Rightarrow> real \<Rightarrow> uint64 \<Rightarrow> uint64 \<Rightarrow> ((hdd_error + real) \<times> hdd) option" where
  "HDD_write d ts address sz =
     (if sector_size d = 0 then None
      else
        let sectors = (ucast (sz div ucast (sector_size d)) :: uint32)
        in case decode d address of
             None \<Rightarrow> None
           | Some None \<Rightarrow> Some (Inr ts, d)
           | Some (Some pos) \<Rightarrow>
               let d = d\<lparr>target_pos := pos\<rparr>;
                   seek = seek_time d (head_pos d) (track (target_pos d));
                   wait = wait_time d
               in (case read_time d (ucast sectors) of
                     None \<Rightarrow> None
                   | Some (time, d) \<Rightarrow> Some (Inr (ts + (seek + wait + time)), d)))"

section \<open>Geometry, as the specification words it\<close>

text \<open>
  The sector count of a track and the number of blocks that lie before a track, as natural
  numbers, from the device's own \<^verbatim>\<open>track_sector\<close> expression. A position is valid when its
  surface, track and sector slot exist; \<open>block_of\<close> is its rank when the positions are
  listed track by track, within a track slot by slot, and within a slot surface by surface.
\<close>

definition track_sectors :: "hdd \<Rightarrow> nat \<Rightarrow> nat" where
  "track_sectors d t =
     unat (track_sector_of (sectors_innermost_track d) (sectors_diff d) (of_nat t))"

fun first_block :: "hdd \<Rightarrow> nat \<Rightarrow> nat" where
  "first_block d 0 = 0"
| "first_block d (Suc t) = first_block d t + track_sectors d t * unat (surfaces d)"



text \<open>The largest byte address \<^verbatim>\<open>decode\<close> accepts: \<^verbatim>\<open>(uint64)(_capacity * 1000000000.0)\<close>.\<close>

definition byte_bound :: "hdd \<Rightarrow> uint64" where
  "byte_bound d = to_uint64 (dbl (capacity d * 1000000000))"

text \<open>The largest number of sectors one visit of a track can take from a position:
  \<^verbatim>\<open>max_access\<close> of \<^verbatim>\<open>read_time\<close>, and the time one sector takes there.\<close>

definition max_access_of :: "hdd \<Rightarrow> HDD_Position \<Rightarrow> uint32" where
  "max_access_of d p =
     (track_sector_of (sectors_innermost_track d) (sectors_diff d) (track p) - (sector p + 1))
       * surfaces d + (surfaces d - surface p)"

definition sector_time :: "hdd \<Rightarrow> uint32 \<Rightarrow> real" where
  "sector_time d t =
     (1 / of_uint32 (rpm d))
       * (1 / of_uint32 (track_sector_of (sectors_innermost_track d) (sectors_diff d) t)) * 60"

section \<open>The scenario of the specification and other devices\<close>

text \<open>One surface, two tracks of 10 and 20 sectors, 6000 rpm, sectors of 512 bytes, no
  seek costs: the device the constructor returns for these parameters.\<close>

definition hdd8 :: hdd where
  "hdd8 = \<lparr>surfaces = 1, rpm = 6000, sector_size = 512, seek_overhead = 0,
     seek_per_track = 0, verbose = False, sectors_innermost_track = 10, sectors_diff = 10,
     capacity = 4533471823554859 / 295147905179352825856, head_pos = 0,
     target_pos = \<lparr>surface = 0, track = 0, sector = 0\<rparr>\<rparr>"

text \<open>A smaller device: one surface, two tracks of 1 and 2 sectors of 512 bytes, as the
  constructor returns it.\<close>

definition hdd_small :: hdd where
  "hdd_small = \<lparr>surfaces = 1, rpm = 6000, sector_size = 512, seek_overhead = 0,
     seek_per_track = 0, verbose = False, sectors_innermost_track = 1, sectors_diff = 1,
     capacity = 7253554917687775 / 4722366482869645213696, head_pos = 0,
     target_pos = \<lparr>surface = 0, track = 0, sector = 0\<rparr>\<rparr>"

text \<open>A device of more than \<open>2^32\<close> sectors: one surface, two tracks of 3000000000 and
  4000000000 sectors of 512 bytes, as the constructor returns it. The \<^verbatim>\<open>uint32\<close> sector
  total has wrapped from 7000000000 to 2705032704, and the capacity is that of the wrapped
  total.\<close>

definition hdd_big :: hdd where
  "hdd_big = \<lparr>surfaces = 1, rpm = 6000, sector_size = 512, seek_overhead = 0,
     seek_per_track = 0, verbose = False, sectors_innermost_track = 3000000000,
     sectors_diff = 1000000000,
     capacity = 6091192138879703 / 4398046511104, head_pos = 0,
     target_pos = \<lparr>surface = 0, track = 0, sector = 0\<rparr>\<rparr>"

text \<open>A device whose tracks all hold a multiple of \<open>2^32\<close> sector slots: \<open>2^31\<close> surfaces,
  two tracks of 2 and 4 sectors of 512 bytes, as the constructor returns it. The sector total
  has wrapped to 0.\<close>

definition hdd_even :: hdd where
  "hdd_even = \<lparr>surfaces = 2147483648, rpm = 6000, sector_size = 512, seek_overhead = 0,
     seek_per_track = 0, verbose = False, sectors_innermost_track = 2,
     sectors_diff = 2, capacity = 0, head_pos = 0,
     target_pos = \<lparr>surface = 0, track = 0, sector = 0\<rparr>\<rparr>"

text \<open>The scenario device with a sector size of zero, as the constructor returns it.\<close>

definition hdd_nosize :: hdd where
  "hdd_nosize = \<lparr>surfaces = 1, rpm = 6000, sector_size = 0, seek_overhead = 0,
     seek_per_track = 0, verbose = False, sectors_innermost_track = 10, sectors_diff = 10,
     capacity = 0, head_pos = 0,
     target_pos = \<lparr>surface = 0, track = 0, sector = 0\<rparr>\<rparr>"

section \<open>Evaluation and machine arithmetic\<close>

declare surface_loop.simps [simp del] access_loop.simps [simp del]
  total_sector_loop.simps [simp del]

lemma bitlen_numeral: "bitlen (numeral n) = bitlen (numeral n div 2) + 1"
  by (subst compute_bitlen) simp

lemma bitlen_one: "bitlen 1 = 1"
  by (subst compute_bitlen) simp

lemmas dbl_eval = dbl_def dbl_pos_def binary_exponent_def scale2_def round_even_def Let_def
  bitlen_numeral bitlen_one

lemma unat_add32: "unat (a::uint32) + unat b < 4294967296 \<Longrightarrow> unat (a + b) = unat a + unat b"
  by (simp add: unat_word_ariths)

lemma unat_mult32: "unat (a::uint32) * unat b < 4294967296 \<Longrightarrow> unat (a * b) = unat a * unat b"
  by (simp add: unat_word_ariths)

lemma unat_of_nat32: "n < 4294967296 \<Longrightarrow> unat (of_nat n :: uint32) = n"
  by (simp add: unat_of_nat)

section \<open>The loops of decode\<close>

lemma surface_loop_run:
  "si \<le> surfs \<Longrightarrow> tot \<le> blk \<Longrightarrow>
   surface_loop surfs blk si tot ef =
     (if unat blk - unat tot < unat surfs - unat si
      then (si + of_nat (unat blk - unat tot), blk, False)
      else (surfs, tot + of_nat (unat surfs - unat si), ef))"
proof (induction surfs blk si tot ef rule: surface_loop.induct)
  case (1 surfs blk si tot ef)
  show ?case
  proof (cases "si < surfs")
    case False
    with "1.prems" have "si = surfs" by simp
    then show ?thesis by (subst surface_loop.simps) simp
  next
    case True
    note si = True
    show ?thesis
    proof (cases "blk \<le> tot")
      case True
      with "1.prems" have "tot = blk" by simp
      with si show ?thesis by (subst surface_loop.simps) (simp add: word_less_nat_alt)
    next
      case False
      then have lt: "tot < blk" by simp
      have u1: "unat (si + 1) = unat si + 1" using si by (rule unat_inc)
      have u2: "unat (tot + 1) = unat tot + 1" using lt by (rule unat_inc)
      have le1: "si + 1 \<le> surfs" using si by (rule inc_le)
      have le2: "tot + 1 \<le> blk" using lt by (rule inc_le)
      have n1: "unat si < unat surfs" "unat tot < unat blk"
        using si lt by (simp_all add: word_less_nat_alt)
      have step: "surface_loop surfs blk si tot ef
          = surface_loop surfs blk (si + 1) (tot + 1) ef"
        using si False by (subst surface_loop.simps) simp
      have d1: "unat blk - unat tot = Suc (unat blk - (unat tot + 1))"
        and d2: "unat surfs - unat si = Suc (unat surfs - (unat si + 1))"
        using n1 by arith+
      have a: "si + 1 + of_nat (unat blk - (unat tot + 1)) = si + of_nat (unat blk - unat tot)"
        by (subst d1) simp
      have b: "tot + 1 + of_nat (unat surfs - (unat si + 1)) = tot + of_nat (unat surfs - unat si)"
        by (subst d2) simp
      have c: "(unat blk - (unat tot + 1) < unat surfs - (unat si + 1))
          = (unat blk - unat tot < unat surfs - unat si)"
        using n1 by arith
      have "surface_loop surfs blk (si + 1) (tot + 1) ef =
        (if unat blk - (unat tot + 1) < unat surfs - (unat si + 1)
         then (si + 1 + of_nat (unat blk - (unat tot + 1)), blk, False)
         else (surfs, tot + 1 + of_nat (unat surfs - (unat si + 1)), ef))"
        using "1.IH"[OF si False le1 le2] by (simp only: u1 u2)
      then show ?thesis
        unfolding step by (simp only: a b c)
    qed
  qed
qed


lemma sector_loop_run:
  "0 < surfs \<Longrightarrow> tot \<le> blk \<Longrightarrow> unat j + (unat blk - unat tot) div unat surfs < unat ts \<Longrightarrow>
   sector_loop surfs ts blk 0 j tot True =
     Some (of_nat ((unat blk - unat tot) mod unat surfs),
           j + of_nat ((unat blk - unat tot) div unat surfs))"
proof (induction "unat blk - unat tot" arbitrary: j tot rule: less_induct)
  case less
  let ?g = "unat blk - unat tot"
  have S: "0 < unat surfs" using less.prems(1) by (simp add: word_less_nat_alt)
  have jts: "j < ts" using less.prems(3) by (simp add: word_less_nat_alt)
  show ?case
  proof (cases "tot = blk")
    case True
    then show ?thesis by (subst sector_loop.simps) simp
  next
    case False
    with less.prems(2) have lt: "tot < blk" by simp
    then have g0: "0 < ?g" "unat tot < unat blk" by (simp_all add: word_less_nat_alt)
    have sl: "surface_loop surfs blk 0 tot True =
        (if ?g < unat surfs then (of_nat ?g, blk, False)
         else (surfs, tot + surfs, True))"
      using surface_loop_run[of 0 surfs tot blk True] less.prems(2) by simp
    show ?thesis
    proof (cases "?g < unat surfs")
      case True
      have fin: "sector_loop surfs ts blk (of_nat ?g) j blk False = Some (of_nat ?g, j)"
        by (subst sector_loop.simps) simp
      have "sector_loop surfs ts blk 0 j tot True = Some (of_nat ?g, j)"
        by (subst sector_loop.simps) (simp add: jts lt sl True fin)
      then show ?thesis using True by simp
    next
      case False
      then have ge: "unat surfs \<le> ?g" by simp
      have ut: "unat (tot + surfs) = unat tot + unat surfs"
      proof -
        have "unat tot + unat surfs \<le> unat blk" using ge g0 by arith
        also have "\<dots> < 2 ^ LENGTH(32)" by (rule unsigned_less)
        finally show ?thesis by (simp add: unat_add32)
      qed
      have le': "tot + surfs \<le> blk" using ge g0 by (simp add: word_le_nat_alt ut)
      have uj: "unat (j + 1) = unat j + 1" using jts by (rule unat_inc)
      have g': "unat blk - unat (tot + surfs) = ?g - unat surfs" by (simp add: ut)
      have dv: "?g div unat surfs = Suc ((?g - unat surfs) div unat surfs)"
        using ge S by (simp add: le_div_geq)
      have md: "?g mod unat surfs = (?g - unat surfs) mod unat surfs"
        using ge by (simp add: le_mod_geq)
      have less': "unat blk - unat (tot + surfs) < ?g" using S g0 ge by (simp add: ut)
      have c3: "unat (j + 1) + (unat blk - unat (tot + surfs)) div unat surfs < unat ts"
        using less.prems(3) by (simp add: uj g' dv)
      have IH: "sector_loop surfs ts blk 0 (j + 1) (tot + surfs) True =
          Some (of_nat ((?g - unat surfs) mod unat surfs),
                j + 1 + of_nat ((?g - unat surfs) div unat surfs))"
        using less.hyps[OF less' less.prems(1) le' c3] by (simp only: g')
      have "sector_loop surfs ts blk 0 j tot True =
          sector_loop surfs ts blk 0 (j + 1) (tot + surfs) True"
        by (subst sector_loop.simps) (simp add: jts lt sl False)
      then show ?thesis
        unfolding IH by (subst dv, subst md) simp
    qed
  qed
qed


lemma first_block_mono: "t \<le> t' \<Longrightarrow> first_block d t \<le> first_block d t'"
  by (induction t' ) (auto simp: le_Suc_eq)

lemma of_nat_first_block_Suc:
  "(of_nat (first_block d (Suc t)) :: uint32) =
     of_nat (first_block d t)
       + track_sector_of (sectors_innermost_track d) (sectors_diff d) (of_nat t) * surfaces d"
  by (simp add: track_sectors_def)

lemma word_pred_le32:
  assumes "0 < n" "n < 4294967296"
  shows "(blk \<le> (of_nat n :: uint32) - 1) = (unat blk < n)"
proof -
  have u: "unat (of_nat n :: uint32) = n" using assms by (simp add: unat_of_nat32)
  then have "(of_nat n :: uint32) \<noteq> 0" using assms by (metis less_nat_zero_code unat_0)
  then have "unat ((of_nat n :: uint32) - 1) = n - 1" using u by (simp add: unat_minus_one)
  then show ?thesis using assms by (auto simp: word_le_nat_alt)
qed

lemma track_loop_run:
  "t \<le> t' \<Longrightarrow> first_block d t' \<le> unat blk \<Longrightarrow> unat blk < first_block d (Suc t') \<Longrightarrow>
   first_block d (Suc t') < 4294967296 \<Longrightarrow> 0 < first_block d (Suc t) \<Longrightarrow>
   track_loop d blk (of_nat t) (of_nat (first_block d t)) =
     Some (of_nat t', of_nat (first_block d (Suc t')))"
proof (induction "t' - t" arbitrary: t)
  case 0
  then have tt: "t = t'" by simp
  have brk: "blk \<le> (of_nat (first_block d (Suc t')) :: uint32) - 1"
    using 0 tt by (simp only: word_pred_le32)
  show ?case
    apply (subst track_loop.simps)
    apply (simp only: Let_def of_nat_first_block_Suc[symmetric] tt)
    using brk apply (simp del: first_block.simps)
    done
next
  case (Suc n)
  then have lt: "t < t'" by simp
  have m1: "first_block d (Suc t) \<le> first_block d t'"
    using lt by (intro first_block_mono) simp
  have m2: "first_block d (Suc t) \<le> first_block d (Suc (Suc t))" by simp
  have m3: "first_block d t' \<le> first_block d (Suc t')" by simp
  have b: "first_block d (Suc t) < 4294967296"
    using m1 m3 Suc.prems(4) by linarith
  have nobrk: "\<not> blk \<le> (of_nat (first_block d (Suc t)) :: uint32) - 1"
    using Suc.prems(2,5) m1 b by (simp add: word_pred_le32 del: first_block.simps)
  have p2: "0 < first_block d (Suc (Suc t))" using Suc.prems(5) m2 by linarith
  have "n = t' - Suc t" "Suc t \<le> t'" using Suc.hyps(2) lt by simp_all
  then have IH: "track_loop d blk (of_nat (Suc t)) (of_nat (first_block d (Suc t))) =
      Some (of_nat t', of_nat (first_block d (Suc t')))"
    using Suc.prems(2,3,4) p2 by (rule Suc.hyps(1))
  have s: "(of_nat (Suc t) :: uint32) = of_nat t + 1" by simp
  show ?case
    apply (subst track_loop.simps)
    apply (simp only: Let_def of_nat_first_block_Suc[symmetric])
    using nobrk IH apply (simp only: s if_False)
    done
qed


lemma unat_ucast_up: "unat (ucast (w :: uint32) :: uint64) = unat w"
proof -
  have "unat w < 4294967296"
    using unsigned_less[of w, where 'a = nat] by simp
  then have "unat w < 2 ^ 64" by simp
  then have "take_bit 64 (unat w) = unat w"
    by (simp only: take_bit_nat_eq_self_iff)
  then show ?thesis
    by (simp only: unsigned_ucast_eq len_bit0 len_num1) simp
qed

lemma unat_ucast_down: "unat (w :: uint64) < 4294967296 \<Longrightarrow> unat (ucast w :: uint32) = unat w"
proof -
  assume "unat w < 4294967296"
  then have "unat w < 2 ^ 32" by simp
  then have "take_bit 32 (unat w) = unat w"
    by (simp only: take_bit_nat_eq_self_iff)
  then show ?thesis
    by (simp only: unsigned_ucast_eq len_bit0 len_num1) simp
qed

lemma unat_block_index:
  assumes "unat (a :: uint64) div unat (ss :: uint32) < 4294967296"
  shows "unat (ucast (a div ucast ss) :: uint32) = unat a div unat ss"
proof -
  have "unat (a div ucast ss) = unat a div unat ss"
    by (simp only: unat_div unat_ucast_up)
  then show ?thesis using assms by (simp only: unat_ucast_down)
qed

lemma decode_run:
  assumes chk: "a \<le> byte_bound d"
    and lo: "first_block d t \<le> unat a div unat (sector_size d)"
    and hi: "unat a div unat (sector_size d) < first_block d (Suc t)"
    and fits: "first_block d (Suc t) < 4294967296"
    and S: "0 < surfaces d" and t0: "0 < track_sectors d 0"
    and ss: "sector_size d \<noteq> 0"
  shows "decode d a = Some (Some
    \<lparr>surface = of_nat ((unat a div unat (sector_size d) - first_block d t) mod unat (surfaces d)),
     track = of_nat t,
     sector = of_nat ((unat a div unat (sector_size d) - first_block d t) div unat (surfaces d))\<rparr>)"
proof -
  let ?b = "unat a div unat (sector_size d)"
  let ?blk = "ucast (a div ucast (sector_size d)) :: uint32"
  let ?ts = "track_sector_of (sectors_innermost_track d) (sectors_diff d) (of_nat t)"
  have Sn: "0 < unat (surfaces d)" using S by (simp add: word_less_nat_alt)
  have ub: "unat ?blk = ?b" using hi fits by (intro unat_block_index) linarith
  have p1: "0 < first_block d (Suc 0)" using t0 Sn by simp
  have tl: "track_loop d ?blk 0 0 = Some (of_nat t, of_nat (first_block d (Suc t)))"
    using track_loop_run[of 0 t d ?blk] lo hi fits p1 by (simp only: ub) simp
  have tot: "(of_nat (first_block d (Suc t)) :: uint32) - ?ts * surfaces d = of_nat (first_block d t)"
    by (simp only: of_nat_first_block_Suc) simp
  have fbt: "first_block d t < 4294967296" using lo hi fits by linarith
  have ut: "unat (of_nat (first_block d t) :: uint32) = first_block d t"
    using fbt by (rule unat_of_nat32)
  have le: "(of_nat (first_block d t) :: uint32) \<le> ?blk"
    using lo by (simp add: word_le_nat_alt ut ub)
  have "?b - first_block d t < track_sectors d t * unat (surfaces d)"
    using lo hi by simp
  then have "(?b - first_block d t) div unat (surfaces d) < track_sectors d t"
    using Sn by (simp add: less_mult_imp_div_less)
  then have c3: "unat (0::uint32) + (unat ?blk - unat (of_nat (first_block d t) :: uint32))
      div unat (surfaces d) < unat ?ts"
    by (simp add: ut ub track_sectors_def)
  have sl: "sector_loop (surfaces d) ?ts ?blk 0 0 (of_nat (first_block d t)) True =
      Some (of_nat ((?b - first_block d t) mod unat (surfaces d)),
            of_nat ((?b - first_block d t) div unat (surfaces d)))"
    using sector_loop_run[OF S le c3] by (simp add: ut ub)
  have nchk: "\<not> (a < 0 \<or> byte_bound d < a)" using chk by (simp add: not_less)
  show ?thesis
    unfolding decode_def byte_bound_def[symmetric]
    by (simp only: nchk ss if_False Let_def tl option.case prod.case tot sl)
qed

section \<open>The loops of the transfer\<close>

lemma access_loop_run:
  "rd \<le> ma \<Longrightarrow>
   access_loop d ts ma rd time n =
     (time + real (min (unat n) (unat ma - unat rd))
               * ((1 / of_uint32 (rpm d)) * (1 / of_uint32 ts) * 60),
      n - of_nat (min (unat n) (unat ma - unat rd)))"
proof (induction d ts ma rd time n rule: access_loop.induct)
  case (1 d ts ma rd time n)
  let ?c = "(1 / of_uint32 (rpm d)) * (1 / of_uint32 ts) * 60"
  show ?case
  proof (cases "0 < n \<and> rd < ma")
    case False
    then have "unat n = 0 \<or> unat ma - unat rd = 0"
      using "1.prems" by (auto simp: word_less_nat_alt word_le_nat_alt unat_gt_0)
    then have mm: "min (unat n) (unat ma - unat rd) = 0" by auto
    have "access_loop d ts ma rd time n = (time, n)"
      by (subst access_loop.simps) (simp only: False if_False)
    then show ?thesis by (simp add: mm)
  next
    case True
    then have n0: "n \<noteq> 0" and lt: "rd < ma" by auto
    have u1: "unat (rd + 1) = unat rd + 1" using lt by (rule unat_inc)
    have u2: "unat (n - 1) = unat n - 1" using n0 by (rule unat_minus_one)
    have np: "0 < unat n" using n0 by (simp add: unat_gt_0)
    have rp: "unat rd < unat ma" using lt by (simp add: word_less_nat_alt)
    have le: "rd + 1 \<le> ma" using lt by (rule inc_le)
    have m: "min (unat n) (unat ma - unat rd)
        = Suc (min (unat n - 1) (unat ma - (unat rd + 1)))"
      using np rp by auto
    have step: "access_loop d ts ma rd time n
        = access_loop d ts ma (rd + 1) (time + ?c) (n - 1)"
      using True by (subst access_loop.simps) simp
    have IH: "access_loop d ts ma (rd + 1) (time + ?c) (n - 1) =
        (time + ?c + real (min (unat n - 1) (unat ma - (unat rd + 1))) * ?c,
         n - 1 - of_nat (min (unat n - 1) (unat ma - (unat rd + 1))))"
      using "1.IH"[OF True le] by (simp only: u1 u2)
    show ?thesis
      unfolding step IH by (subst m, subst m) (simp add: algebra_simps)
  qed
qed

lemma track_walk_done:
  assumes "unat n \<le> unat (max_access_of d p)"
  shows "track_walk d p time n = Some (time + real (unat n) * sector_time d (track p), p)"
proof -
  have m: "min (unat n) (unat (max_access_of d p)) = unat n" using assms by simp
  show ?thesis
    apply (subst track_walk.simps)
    apply (simp only: Let_def max_access_of_def[symmetric])
    apply (simp only: access_loop_run[OF word_zero_le] unat_0 diff_zero m prod.case)
    apply (simp add: sector_time_def)
    done
qed

lemma track_walk_next:
  assumes "unat (max_access_of d p) < unat n"
  shows "track_walk d p time n =
    track_walk d \<lparr>surface = 0, track = track p + 1, sector = 0\<rparr>
      (time + real (unat (max_access_of d p)) * sector_time d (track p)
         + (seek_time d (track p + 1) (track p + 1 + 1) + wait_time d))
      (n - of_nat (unat (max_access_of d p)))"
proof -
  have m: "min (unat n) (unat (max_access_of d p)) = unat (max_access_of d p)"
    using assms by simp
  have "unat (n - of_nat (unat (max_access_of d p))) = unat n - unat (max_access_of d p)"
    using assms by (simp add: unat_sub_if' unat_ucast_up)
  then have nz: "n - of_nat (unat (max_access_of d p)) \<noteq> 0"
    using assms by (metis diff_is_0_eq not_less unat_0)
  show ?thesis
    apply (subst track_walk.simps)
    apply (simp only: Let_def max_access_of_def[symmetric])
    apply (simp only: access_loop_run[OF word_zero_le] unat_0 diff_zero m prod.case)
    using nz apply (simp add: sector_time_def)
    done
qed


lemma max_access_nat:
  fixes d p
  defines "ts \<equiv> track_sector_of (sectors_innermost_track d) (sectors_diff d) (track p)"
  assumes sec: "sector p < ts" and sur: "surface p \<le> surfaces d"
    and fit: "unat ts * unat (surfaces d) < 4294967296"
  shows "unat (max_access_of d p) =
    (unat ts - unat (sector p) - 1) * unat (surfaces d) + (unat (surfaces d) - unat (surface p))"
proof -
  have s1: "unat (sector p + 1) = unat (sector p) + 1" using sec by (rule unat_inc)
  have sl: "unat (sector p) < unat ts" using sec by (simp add: word_less_nat_alt)
  have le: "sector p + 1 \<le> ts" using sec by (rule inc_le)
  have a: "unat (ts - (sector p + 1)) = unat ts - unat (sector p) - 1"
    using le by (simp add: unat_sub s1)
  have "(unat ts - unat (sector p) - 1) * unat (surfaces d) \<le> unat ts * unat (surfaces d)"
    by (rule mult_le_mono1) simp
  then have "unat (ts - (sector p + 1)) * unat (surfaces d) < 4294967296"
    using fit by (simp only: a)
  then have "unat ((ts - (sector p + 1)) * surfaces d)
      = unat (ts - (sector p + 1)) * unat (surfaces d)"
    by (rule unat_mult32)
  then have b: "unat ((ts - (sector p + 1)) * surfaces d)
      = (unat ts - unat (sector p) - 1) * unat (surfaces d)"
    by (simp only: a)
  have c: "unat (surfaces d - surface p) = unat (surfaces d) - unat (surface p)"
    using sur by (simp add: unat_sub)
  have "(unat ts - unat (sector p) - 1) * unat (surfaces d) + unat (surfaces d)
      = (unat ts - unat (sector p)) * unat (surfaces d)"
    using sl by (metis Suc_diff_Suc mult_Suc add.commute diff_diff_left plus_1_eq_Suc)
  also have "\<dots> \<le> unat ts * unat (surfaces d)" by (rule mult_le_mono1) simp
  finally have "(unat ts - unat (sector p) - 1) * unat (surfaces d)
      + (unat (surfaces d) - unat (surface p)) < 4294967296"
    using fit by linarith
  then show ?thesis
    unfolding max_access_of_def ts_def[symmetric]
    by (simp add: unat_add32 b c)
qed



lemma unat_sub_of_nat64:
  "unat (m :: uint32) \<le> unat (n :: uint64) \<Longrightarrow> unat (n - of_nat (unat m)) = unat n - unat m"
  by (simp add: unat_sub_if' unat_ucast_up)

lemma track_sectors_unat:
  "track_sectors d (unat t) = unat (track_sector_of (sectors_innermost_track d) (sectors_diff d) t)"
  by (simp add: track_sectors_def)

lemma max_access_track_start:
  assumes "0 < track_sectors d (unat t)"
    and "track_sectors d (unat t) * unat (surfaces d) < 4294967296"
  shows "unat (max_access_of d \<lparr>surface = 0, track = t, sector = 0\<rparr>)
    = track_sectors d (unat t) * unat (surfaces d)"
proof -
  let ?p = "\<lparr>surface = 0, track = t, sector = 0\<rparr>"
  let ?ts = "track_sector_of (sectors_innermost_track d) (sectors_diff d) (track ?p)"
  have a: "sector ?p < ?ts" using assms(1) by (simp add: track_sectors_unat word_less_nat_alt)
  have b: "surface ?p \<le> surfaces d" by simp
  have c: "unat ?ts * unat (surfaces d) < 4294967296"
    using assms(2) by (simp add: track_sectors_unat)
  have "unat (max_access_of d ?p) =
      (unat ?ts - unat (sector ?p) - 1) * unat (surfaces d)
        + (unat (surfaces d) - unat (surface ?p))"
    using a b c by (rule max_access_nat)
  also have "\<dots> = (track_sectors d (unat t) - 1) * unat (surfaces d) + unat (surfaces d)"
    by (simp add: track_sectors_unat)
  also have "\<dots> = track_sectors d (unat t) * unat (surfaces d)"
    using assms(1) by (metis Suc_diff_1 mult_Suc add.commute)
  finally show ?thesis .
qed

lemma track_walk_returns:
  "unat (track p) \<le> K \<Longrightarrow> K + 1 < 4294967296 \<Longrightarrow>
   (\<And>t. unat (track p) < t \<Longrightarrow> t \<le> K \<Longrightarrow>
      0 < track_sectors d t \<and> track_sectors d t * unat (surfaces d) < 4294967296) \<Longrightarrow>
   unat n \<le> unat (max_access_of d p)
      + (first_block d (Suc K) - first_block d (Suc (unat (track p)))) \<Longrightarrow>
   \<exists>time' p'. track_walk d p time n = Some (time', p')
      \<and> unat (track p) \<le> unat (track p') \<and> unat (track p') \<le> K"
proof (induction "K - unat (track p)" arbitrary: p time n)
  case 0
  then have "unat (track p) = K" by simp
  then have "unat n \<le> unat (max_access_of d p)" using "0.prems"(4) by simp
  then show ?case using "0.prems"(1) by (simp add: track_walk_done)
next
  case (Suc k)
  show ?case
  proof (cases "unat n \<le> unat (max_access_of d p)")
    case True
    then show ?thesis using Suc.prems(1) by (simp add: track_walk_done)
  next
    case False
    then have lt: "unat (max_access_of d p) < unat n" by simp
    let ?t = "unat (track p)"
    let ?p' = "\<lparr>surface = 0, track = track p + 1, sector = 0\<rparr>"
    let ?n' = "n - of_nat (unat (max_access_of d p))"
    have tK: "?t < K" using Suc.hyps(2) by simp
    have ut: "unat (track p + 1) = ?t + 1"
      using unat_add32[of "track p" 1] tK Suc.prems(2) by simp
    have tr': "0 < track_sectors d (?t + 1)"
      "track_sectors d (?t + 1) * unat (surfaces d) < 4294967296"
      using Suc.prems(3)[of "?t + 1"] tK by simp_all
    have ma': "unat (max_access_of d ?p') = track_sectors d (?t + 1) * unat (surfaces d)"
      using max_access_track_start[of d "track p + 1"] tr' by (simp only: ut)
    have un': "unat ?n' = unat n - unat (max_access_of d p)"
      using lt unat_sub_of_nat64[of "max_access_of d p" n] by simp
    have m: "first_block d (Suc (Suc ?t)) \<le> first_block d (Suc K)"
      using tK by (intro first_block_mono) simp
    have f: "first_block d (Suc (Suc ?t))
        = first_block d (Suc ?t) + track_sectors d (?t + 1) * unat (surfaces d)"
      by simp
    have e: "Suc (unat (track ?p')) = Suc (Suc ?t)" by (simp add: ut)
    have "unat n - unat (max_access_of d p) \<le> track_sectors d (?t + 1) * unat (surfaces d)
        + (first_block d (Suc K) - first_block d (Suc (Suc ?t)))"
      using Suc.prems(4) lt m f by linarith
    then have n': "unat ?n' \<le> unat (max_access_of d ?p')
        + (first_block d (Suc K) - first_block d (Suc (unat (track ?p'))))"
      by (simp only: e un' ma')
    have k: "k = K - unat (track ?p')" using Suc.hyps(2) by (simp add: ut)
    have c1: "unat (track ?p') \<le> K" using tK by (simp add: ut)
    have c3: "\<And>t. unat (track ?p') < t \<Longrightarrow> t \<le> K \<Longrightarrow>
        0 < track_sectors d t \<and> track_sectors d t * unat (surfaces d) < 4294967296"
      using Suc.prems(3) by (simp add: ut)
    let ?time' = "time + real (unat (max_access_of d p)) * sector_time d (track p)
          + (seek_time d (track p + 1) (track p + 1 + 1) + wait_time d)"
    have "\<exists>time' p'. track_walk d ?p' ?time' ?n' = Some (time', p')
        \<and> unat (track ?p') \<le> unat (track p') \<and> unat (track p') \<le> K"
      using k c1 Suc.prems(2) c3 n' by (rule Suc.hyps(1))
    then obtain time' p' where r: "track_walk d ?p' ?time' ?n' = Some (time', p')"
        "unat (track ?p') \<le> unat (track p')" "unat (track p') \<le> K"
      by (elim exE conjE)
    have "track_walk d p time n = Some (time', p')"
      using track_walk_next[OF lt] r(1) by simp
    then show ?thesis using r(2,3) by (simp add: ut)
  qed
qed

section \<open>The scenario device\<close>

lemma hdd8_track_sector_of:
  "track_sector_of 10 10 0 = 10" "track_sector_of 10 10 1 = 20" "track_sector_of 10 10 2 = 30"
  by (simp_all add: of_uint32_def track_sector_of_def to_uint32_def dbl_eval)

lemma hdd8_constructed: "HDD_new 1 2 10 20 6000 512 0 0 False = Inr ([], hdd8)"
  by (simp add: HDD_new_def hdd8_def of_uint32_def hdd8_track_sector_of dbl_eval
      total_sector_loop.simps)

lemma hdd8_byte_bound: "byte_bound hdd8 = 15359"
  by (simp add: byte_bound_def hdd8_def dbl_eval to_uint64_def)

lemma hdd8_track_sectors:
  "track_sectors hdd8 0 = 10" "track_sectors hdd8 (Suc 0) = 20"
  "track_sectors hdd8 (Suc (Suc 0)) = 30"
  by (simp_all add: track_sectors_def hdd8_def hdd8_track_sector_of)

lemma hdd8_first_block:
  "first_block hdd8 (Suc 0) = 10" "first_block hdd8 (Suc (Suc 0)) = 30"
  "first_block hdd8 (Suc (Suc (Suc 0))) = 60"
  by (simp_all add: hdd8_track_sectors) (simp_all add: hdd8_def)

lemma decode_rejects: "byte_bound d < a \<Longrightarrow> decode d a = Some None"
  by (simp add: decode_def byte_bound_def)

lemma decode_accepted_sector_size: "decode d a = Some (Some p) \<Longrightarrow> sector_size d \<noteq> 0"
  by (simp add: decode_def split: if_splits)

lemma HDD_read_accepted:
  assumes "decode d a = Some (Some pos)"
    and "read_time (d\<lparr>target_pos := pos\<rparr>)
           (ucast (ucast (sz div ucast (sector_size d)) :: uint32)) = Some (time, d')"
  shows "HDD_read d ts a sz
    = Some (Inr (ts + (seek_time d (head_pos d) (track pos) + wait_time d + time)), d')"
  using assms decode_accepted_sector_size[OF assms(1)]
  by (simp add: HDD_read_def seek_time_def wait_time_def)

lemma hdd8_decode_out: "decode hdd8 15872 = Some None"
  by (rule decode_rejects) (simp add: hdd8_byte_bound)

section \<open>Rounding, track counts and scenario values\<close>

lemma round_even_of_int: "round_even (of_int m) = m"
  by (simp add: round_even_def)

lemma dbl_of_nat:
  assumes "n < 2 ^ 53"
  shows "dbl (real n) = real n"
proof (cases "n = 0")
  case True
  then show ?thesis by (simp add: dbl_def)
next
  case False
  then have n: "0 < int n" by simp
  let ?e = "bitlen (int n) - 1"
  have b: "2 ^ nat ?e \<le> int n" using bitlen_bounds[OF n] by simp
  have e0: "0 \<le> ?e" using n by (simp add: bitlen_alt_def)
  have "int n < 2 ^ 53" using assms by simp
  then have "(2::int) ^ nat ?e < 2 ^ 53"
    using b by (rule le_less_trans[rotated])
  then have "nat ?e < 53" by (simp only: power_strict_increasing_iff one_less_numeral_iff semiring_norm)
  then have e52: "?e \<le> 52" by simp
  have x1: "1 \<le> real n" using False by simp
  have be: "binary_exponent (real n) = ?e"
    using x1 by (simp add: binary_exponent_def)
  have s1: "scale2 (real n) (52 - ?e) = of_int (int n * 2 ^ nat (52 - ?e))"
    using e52 by (simp add: scale2_def)
  have "scale2 (of_int (int n * 2 ^ nat (52 - ?e))) (?e - 52) = real n"
  proof (cases "?e = 52")
    case True
    then show ?thesis by (simp add: scale2_def)
  next
    case False
    then have "\<not> 0 \<le> ?e - 52" using e52 by simp
    then show ?thesis by (simp add: scale2_def)
  qed
  then have "dbl_pos (real n) = real n"
    unfolding dbl_pos_def be Let_def s1 round_even_of_int .
  then show ?thesis using False by (simp add: dbl_def)
qed

lemma to_uint32_of_nat: "to_uint32 (real n) = of_nat n"
  by (simp add: to_uint32_def)



lemma hdd8_track_sectors_linear:
  assumes "t \<le> 1000"
  shows "track_sectors hdd8 t = 10 + 10 * t"
proof -
  have u: "unat (of_nat t :: uint32) = t" using assms by (simp add: unat_of_nat32)
  have a: "dbl (10 * real t) = real (10 * t)"
    using dbl_of_nat[of "10 * t"] assms by simp
  have b: "dbl (10 + real (10 * t)) = real (10 + 10 * t)"
    using dbl_of_nat[of "10 + 10 * t"] assms by simp
  have "track_sector_of 10 10 (of_nat t) = of_nat (10 + 10 * t)"
    unfolding track_sector_of_def of_uint32_def u
    by (simp add: a b to_uint32_of_nat del: of_nat_add of_nat_mult)
  moreover have "unat (of_nat (10 + 10 * t) :: uint32) = 10 + 10 * t"
    using assms unat_of_nat32[of "10 + 10 * t"] by simp
  ultimately show ?thesis by (simp add: track_sectors_def hdd8_def)
qed

lemma first_block_target_pos [simp]: "first_block (d\<lparr>target_pos := p\<rparr>) t = first_block d t"
  by (induction t) (simp_all add: track_sectors_def)

lemma track_count_le_blocks:
  "t0 \<le> K \<Longrightarrow> (\<And>t. t0 < t \<Longrightarrow> t \<le> K \<Longrightarrow> 0 < track_sectors d t) \<Longrightarrow> 0 < unat (surfaces d) \<Longrightarrow>
   K - t0 \<le> first_block d (Suc K) - first_block d (Suc t0)"
proof (induction K)
  case 0
  then show ?case by simp
next
  case (Suc K)
  show ?case
  proof (cases "t0 = Suc K")
    case True
    then show ?thesis by simp
  next
    case False
    then have le: "t0 \<le> K" using Suc.prems(1) by simp
    have IH: "K - t0 \<le> first_block d (Suc K) - first_block d (Suc t0)"
      using le Suc.prems(2,3) by (intro Suc.IH) simp_all
    have "0 < track_sectors d (Suc K) * unat (surfaces d)"
      using Suc.prems(2)[of "Suc K"] Suc.prems(3) le by simp
    moreover have "first_block d (Suc t0) \<le> first_block d (Suc K)"
      using le by (intro first_block_mono) simp
    moreover have "first_block d (Suc (Suc K))
        = first_block d (Suc K) + track_sectors d (Suc K) * unat (surfaces d)" by simp
    ultimately show ?thesis using IH le by linarith
  qed
qed


lemma hdd8_target_pos: "hdd8\<lparr>target_pos := \<lparr>surface = 0, track = 0, sector = 0\<rparr>\<rparr> = hdd8"
  by (simp add: hdd8_def)

lemma hdd8_max_access:
  "max_access_of hdd8 \<lparr>surface = 0, track = 0, sector = 0\<rparr> = 10"
  "max_access_of hdd8 \<lparr>surface = 0, track = 0 + 1, sector = 0\<rparr> = 20"
  "max_access_of hdd8 \<lparr>surface = 0, track = 0 + 1 + 1, sector = 0\<rparr> = 30"
  by (simp_all add: max_access_of_def hdd8_def hdd8_track_sector_of)

lemma hdd8_sector_time:
  "sector_time hdd8 0 = 1 / 1000" "sector_time hdd8 (0 + 1) = 1 / 2000"
  "sector_time hdd8 (0 + 1 + 1) = 1 / 3000"
  by (simp_all add: sector_time_def hdd8_def hdd8_track_sector_of of_uint32_def)

lemma hdd8_times: "wait_time hdd8 = 1 / 200" "seek_time hdd8 a b = 0"
  by (simp_all add: wait_time_def seek_time_def hdd8_def of_uint32_def)

lemma hdd8_decode_0: "decode hdd8 0 = Some (Some \<lparr>surface = 0, track = 0, sector = 0\<rparr>)"
  using decode_run[of 0 hdd8 0]
  by (simp add: hdd8_first_block hdd8_track_sectors) (simp add: hdd8_def)

lemma hdd8_walk_1:
  "track_walk hdd8 \<lparr>surface = 0, track = 0, sector = 0\<rparr> 0 1
     = Some (1 / 1000, \<lparr>surface = 0, track = 0, sector = 0\<rparr>)"
  using track_walk_done[of 1 hdd8 "\<lparr>surface = 0, track = 0, sector = 0\<rparr>" 0]
  by (simp add: hdd8_max_access hdd8_sector_time)

lemma hdd8_walk_31:
  "track_walk hdd8 \<lparr>surface = 0, track = 0, sector = 0\<rparr> 0 31
     = Some (91 / 3000, \<lparr>surface = 0, track = 2, sector = 0\<rparr>)"
proof -
  let ?p0 = "\<lparr>surface = 0, track = 0, sector = 0\<rparr> :: HDD_Position"
  let ?p1 = "\<lparr>surface = 0, track = 0 + 1, sector = 0\<rparr> :: HDD_Position"
  let ?p2 = "\<lparr>surface = 0, track = 0 + 1 + 1, sector = 0\<rparr> :: HDD_Position"
  have a: "track_walk hdd8 ?p0 0 31 = track_walk hdd8 ?p1 (3 / 200) 21"
    using track_walk_next[of hdd8 ?p0 31 0]
    by (simp only: hdd8_max_access hdd8_sector_time hdd8_times HDD_Position.simps) simp
  have b: "track_walk hdd8 ?p1 (3 / 200) 21 = track_walk hdd8 ?p2 (3 / 100) 1"
    using track_walk_next[of hdd8 ?p1 21 "3 / 200"]
    by (simp only: hdd8_max_access hdd8_sector_time hdd8_times HDD_Position.simps) simp
  have c: "track_walk hdd8 ?p2 (3 / 100) 1 = Some (91 / 3000, ?p2)"
    using track_walk_done[of 1 hdd8 ?p2 "3 / 100"]
    by (simp only: hdd8_max_access hdd8_sector_time hdd8_times HDD_Position.simps) simp
  show ?thesis unfolding a b c by simp
qed

lemma hdd8_fields: "target_pos hdd8 = \<lparr>surface = 0, track = 0, sector = 0\<rparr>"
  "head_pos hdd8 = 0" "hdd8\<lparr>head_pos := 0\<rparr> = hdd8"
  by (simp_all add: hdd8_def)

lemma hdd8_read_512: "HDD_read hdd8 0 0 512 = Some (Inr (6 / 1000), hdd8)"
proof -
  have n: "(ucast (ucast ((512::uint64) div ucast (sector_size hdd8)) :: uint32) :: uint64) = 1"
    by (simp add: hdd8_def)
  have rt: "read_time hdd8 1 = Some (1 / 1000, hdd8)"
    by (simp add: read_time_def hdd8_fields hdd8_walk_1)
  have "HDD_read hdd8 0 0 512
      = Some (Inr (0 + (seek_time hdd8 (head_pos hdd8) (track \<lparr>surface = 0, track = 0, sector = 0\<rparr>)
                + wait_time hdd8 + 1 / 1000)), hdd8)"
  proof (rule HDD_read_accepted)
    show "decode hdd8 0 = Some (Some \<lparr>surface = 0, track = 0, sector = 0\<rparr>)"
      by (rule hdd8_decode_0)
    show "read_time (hdd8\<lparr>target_pos := \<lparr>surface = 0, track = 0, sector = 0\<rparr>\<rparr>)
        (ucast (ucast ((512::uint64) div ucast (sector_size hdd8)) :: uint32)) = Some (1 / 1000, hdd8)"
      unfolding n hdd8_target_pos by (rule rt)
  qed
  then show ?thesis by (simp add: hdd8_times hdd8_fields)
qed

lemma hdd8_read_31: "HDD_read hdd8 0 0 15872 = Some (Inr (53 / 1500), hdd8\<lparr>head_pos := 2\<rparr>)"
proof -
  have n: "(ucast (ucast ((15872::uint64) div ucast (sector_size hdd8)) :: uint32) :: uint64) = 31"
    by (simp add: hdd8_def)
  have rt: "read_time hdd8 31 = Some (91 / 3000, hdd8\<lparr>head_pos := 2\<rparr>)"
    by (simp add: read_time_def hdd8_fields hdd8_walk_31)
  have "HDD_read hdd8 0 0 15872
      = Some (Inr (0 + (seek_time hdd8 (head_pos hdd8) (track \<lparr>surface = 0, track = 0, sector = 0\<rparr>)
                + wait_time hdd8 + 91 / 3000)), hdd8\<lparr>head_pos := 2\<rparr>)"
  proof (rule HDD_read_accepted)
    show "decode hdd8 0 = Some (Some \<lparr>surface = 0, track = 0, sector = 0\<rparr>)"
      by (rule hdd8_decode_0)
    show "read_time (hdd8\<lparr>target_pos := \<lparr>surface = 0, track = 0, sector = 0\<rparr>\<rparr>)
        (ucast (ucast ((15872::uint64) div ucast (sector_size hdd8)) :: uint32))
        = Some (91 / 3000, hdd8\<lparr>head_pos := 2\<rparr>)"
      unfolding n hdd8_target_pos by (rule rt)
  qed
  then show ?thesis by (simp add: hdd8_times hdd8_fields)
qed

section \<open>Blocks and positions\<close>










lemma hdd_small_track_sector_of:
  "track_sector_of 1 1 0 = 1" "track_sector_of 1 1 1 = 2" "track_sector_of 1 1 2 = 3"
  by (simp_all add: of_uint32_def track_sector_of_def to_uint32_def dbl_eval)

lemma hdd_small_constructed: "HDD_new 1 2 1 2 6000 512 0 0 False = Inr ([], hdd_small)"
  by (simp add: HDD_new_def hdd_small_def of_uint32_def hdd_small_track_sector_of dbl_eval
      total_sector_loop.simps word_le_nat_alt)

lemma hdd_small_byte_bound: "byte_bound hdd_small = 1536"
  by (simp add: byte_bound_def hdd_small_def dbl_eval to_uint64_def)

lemma hdd_small_track_sectors:
  "track_sectors hdd_small 0 = 1" "track_sectors hdd_small (Suc 0) = 2"
  "track_sectors hdd_small (Suc (Suc 0)) = 3"
  by (simp_all add: track_sectors_def hdd_small_def hdd_small_track_sector_of)

lemma hdd_small_first_block:
  "first_block hdd_small (Suc 0) = 1" "first_block hdd_small (Suc (Suc 0)) = 3"
  "first_block hdd_small (Suc (Suc (Suc 0))) = 6"
  by (simp_all add: hdd_small_track_sectors) (simp_all add: hdd_small_def)

lemma hdd_small_decode_capacity:
  "decode hdd_small 1536 = Some (Some \<lparr>surface = 0, track = 2, sector = 0\<rparr>)"
  using decode_run[of 1536 hdd_small "Suc (Suc 0)"]
  by (simp add: hdd_small_first_block hdd_small_track_sectors hdd_small_byte_bound)
    (simp add: hdd_small_def)

lemma hdd8_decode_capacity: "decode hdd8 (30 * 512) = Some None"
  by (rule decode_rejects) (simp add: hdd8_byte_bound)

section \<open>Rounding error and the byte bound\<close>


















section \<open>Devices at the limits of the machine integers\<close>

lemma HDD_write_accepted:
  assumes "decode d a = Some (Some pos)"
    and "read_time (d\<lparr>target_pos := pos\<rparr>)
           (ucast (ucast (sz div ucast (sector_size d)) :: uint32)) = Some (time, d')"
  shows "HDD_write d ts a sz
    = Some (Inr (ts + (seek_time d (head_pos d) (track pos) + wait_time d + time)), d')"
  using assms decode_accepted_sector_size[OF assms(1)]
  by (simp add: HDD_write_def seek_time_def wait_time_def)

lemma sector_count_kept:
  assumes "unat sz div unat (sector_size d) < 4294967296"
  shows "(ucast (ucast (sz div ucast (sector_size d)) :: uint32) :: uint64)
      = sz div ucast (sector_size d)"
    and "unat (sz div ucast (sector_size d) :: uint64) = unat sz div unat (sector_size d)"
proof -
  show u: "unat (sz div ucast (sector_size d) :: uint64) = unat sz div unat (sector_size d)"
    by (simp only: unat_div unat_ucast_up)
  have "unat (ucast (ucast (sz div ucast (sector_size d)) :: uint32) :: uint64)
      = unat sz div unat (sector_size d)"
    using assms by (simp only: unat_ucast_up unat_block_index)
  then show "(ucast (ucast (sz div ucast (sector_size d)) :: uint32) :: uint64)
      = sz div ucast (sector_size d)"
    by (simp only: word_unat_eq_iff u)
qed

lemma hdd_big_track_sector_of:
  "track_sector_of 3000000000 1000000000 0 = 3000000000"
  "track_sector_of 3000000000 1000000000 1 = 4000000000"
  by (simp_all add: of_uint32_def track_sector_of_def to_uint32_def dbl_eval)

lemma hdd_big_constructed:
  "HDD_new 1 2 3000000000 4000000000 6000 512 0 0 False = Inr ([], hdd_big)"
  by (simp add: HDD_new_def hdd_big_def of_uint32_def hdd_big_track_sector_of dbl_eval
      total_sector_loop.simps word_le_nat_alt)


lemma hdd_big_track_sectors:
  "track_sectors hdd_big 0 = 3000000000" "track_sectors hdd_big (Suc 0) = 4000000000"
  by (simp_all add: track_sectors_def hdd_big_def hdd_big_track_sector_of)

lemma hdd_big_first_block:
  "first_block hdd_big (Suc 0) = 3000000000" "first_block hdd_big (Suc (Suc 0)) = 7000000000"
  by (simp_all add: hdd_big_track_sectors) (simp_all add: hdd_big_def)

lemma hdd_nosize_constructed:
  "HDD_new 1 2 10 20 6000 0 0 0 False = Inr ([], hdd_nosize)"
  by (simp add: HDD_new_def hdd_nosize_def of_uint32_def hdd8_track_sector_of dbl_eval
      total_sector_loop.simps)

lemma hdd_even_track_sector_of:
  "track_sector_of 2 2 0 = 2" "track_sector_of 2 2 1 = 4"
  by (simp_all add: of_uint32_def track_sector_of_def to_uint32_def dbl_eval)

lemma hdd_even_constructed:
  "HDD_new 2147483648 2 2 4 6000 512 0 0 False = Inr ([], hdd_even)"
  by (simp add: HDD_new_def hdd_even_def of_uint32_def hdd_even_track_sector_of dbl_eval
      total_sector_loop.simps word_le_nat_alt)

lemma hdd_nosize_decode: "decode hdd_nosize 512 = Some None" "decode hdd_nosize 0 = None"
  by (simp_all add: decode_def hdd_nosize_def dbl_eval to_uint64_def)

lemma hdd_nosize_read: "HDD_read hdd_nosize 0 512 512 = None" "HDD_write hdd_nosize 0 512 512 = None"
  by (simp_all add: HDD_read_def HDD_write_def hdd_nosize_def)

lemma hdd_big_decode_0: "decode hdd_big 0 = Some (Some \<lparr>surface = 0, track = 0, sector = 0\<rparr>)"
  using decode_run[of 0 hdd_big 0]
  by (simp add: hdd_big_first_block hdd_big_track_sectors) (simp add: hdd_big_def)



lemma hdd_big_max_access:
  "max_access_of hdd_big \<lparr>surface = 0, track = 0, sector = 0\<rparr> = 3000000000"
  "max_access_of hdd_big \<lparr>surface = 0, track = 0 + 1, sector = 0\<rparr> = 4000000000"
  by (simp_all add: max_access_of_def hdd_big_def hdd_big_track_sector_of)

lemma hdd_big_sector_time:
  "sector_time hdd_big 0 = 1 / 300000000000" "sector_time hdd_big (0 + 1) = 1 / 400000000000"
  by (simp_all add: sector_time_def hdd_big_def hdd_big_track_sector_of of_uint32_def)

lemma hdd_big_times: "wait_time hdd_big = 1 / 200" "seek_time hdd_big a b = 0"
  by (simp_all add: wait_time_def seek_time_def hdd_big_def of_uint32_def)

lemma hdd_big_walk_1:
  "track_walk hdd_big \<lparr>surface = 0, track = 0, sector = 0\<rparr> 0 1
     = Some (1 / 300000000000, \<lparr>surface = 0, track = 0, sector = 0\<rparr>)"
  using track_walk_done[of 1 hdd_big "\<lparr>surface = 0, track = 0, sector = 0\<rparr>" 0]
  by (simp add: hdd_big_max_access hdd_big_sector_time)

lemma hdd_big_walk_all:
  "track_walk hdd_big \<lparr>surface = 0, track = 0, sector = 0\<rparr> 0 4294967297
     = Some (7294967297 / 400000000000, \<lparr>surface = 0, track = 1, sector = 0\<rparr>)"
proof -
  let ?p0 = "\<lparr>surface = 0, track = 0, sector = 0\<rparr> :: HDD_Position"
  let ?p1 = "\<lparr>surface = 0, track = 0 + 1, sector = 0\<rparr> :: HDD_Position"
  have a: "track_walk hdd_big ?p0 0 4294967297 = track_walk hdd_big ?p1 (3 / 200) 1294967297"
    using track_walk_next[of hdd_big ?p0 4294967297 0]
    by (simp only: hdd_big_max_access hdd_big_sector_time hdd_big_times HDD_Position.simps) simp
  have c: "track_walk hdd_big ?p1 (3 / 200) 1294967297 = Some (7294967297 / 400000000000, ?p1)"
    using track_walk_done[of 1294967297 hdd_big ?p1 "3 / 200"]
    by (simp only: hdd_big_max_access hdd_big_sector_time hdd_big_times HDD_Position.simps) simp
  show ?thesis unfolding a c by simp
qed

lemma hdd_big_fields: "target_pos hdd_big = \<lparr>surface = 0, track = 0, sector = 0\<rparr>"
  "head_pos hdd_big = 0" "hdd_big\<lparr>head_pos := 0\<rparr> = hdd_big"
  "hdd_big\<lparr>target_pos := \<lparr>surface = 0, track = 0, sector = 0\<rparr>\<rparr> = hdd_big"
  by (simp_all add: hdd_big_def)

lemma hdd_big_read:
  "HDD_read hdd_big 0 0 (4294967297 * 512) = Some (Inr (1500000001 / 300000000000), hdd_big)"
proof -
  have n: "(ucast (ucast ((4294967297 * 512 :: uint64) div ucast (sector_size hdd_big)) :: uint32)
      :: uint64) = 1"
    by (simp add: hdd_big_def)
  have rt: "read_time hdd_big 1 = Some (1 / 300000000000, hdd_big)"
    by (simp add: read_time_def hdd_big_fields hdd_big_walk_1)
  have "HDD_read hdd_big 0 0 (4294967297 * 512)
      = Some (Inr (0 + (seek_time hdd_big (head_pos hdd_big)
                  (track \<lparr>surface = 0, track = 0, sector = 0\<rparr>)
                + wait_time hdd_big + 1 / 300000000000)), hdd_big)"
  proof (rule HDD_read_accepted)
    show "decode hdd_big 0 = Some (Some \<lparr>surface = 0, track = 0, sector = 0\<rparr>)"
      by (rule hdd_big_decode_0)
    show "read_time (hdd_big\<lparr>target_pos := \<lparr>surface = 0, track = 0, sector = 0\<rparr>\<rparr>)
        (ucast (ucast ((4294967297 * 512 :: uint64) div ucast (sector_size hdd_big)) :: uint32))
        = Some (1 / 300000000000, hdd_big)"
      unfolding n hdd_big_fields by (rule rt)
  qed
  then show ?thesis by (simp add: hdd_big_times hdd_big_fields)
qed

lemma track_walk_stuck_aux:
  assumes ret: "track_walk d p time n = Some y"
  shows "(\<forall>t. max_access_of d \<lparr>surface = 0, track = t, sector = 0\<rparr> = 0) \<longrightarrow>
   surface p = 0 \<longrightarrow> sector p = 0 \<longrightarrow> n = 0"
proof (rule track_walk.raw_induct[where P = "\<lambda>d p time n y.
    (\<forall>t. max_access_of d \<lparr>surface = 0, track = t, sector = 0\<rparr> = 0) \<longrightarrow>
    surface p = 0 \<longrightarrow> sector p = 0 \<longrightarrow> n = 0", OF _ ret])
  fix tw :: "hdd \<Rightarrow> HDD_Position \<Rightarrow> real \<Rightarrow> uint64 \<Rightarrow> (real \<times> HDD_Position) option"
  fix d p time n y
  assume IH: "\<And>d p time n y. tw d p time n = Some y \<Longrightarrow>
      (\<forall>t. max_access_of d \<lparr>surface = 0, track = t, sector = 0\<rparr> = 0) \<longrightarrow>
      surface p = 0 \<longrightarrow> sector p = 0 \<longrightarrow> n = 0"
  assume step: "(let track_sector =
            track_sector_of (sectors_innermost_track d) (sectors_diff d) (track p);
          max_access = (track_sector - (sector p + 1)) * surfaces d + (surfaces d - surface p)
      in case access_loop d track_sector max_access 0 time n of
         (time, sectors) \<Rightarrow>
           if sectors \<le> 0 then Some (time, p)
           else let curr_pos = \<lparr>surface = 0, track = track p + 1, sector = 0\<rparr>
                in tw d curr_pos
                    (time + (seek_time d (track curr_pos) (track curr_pos + 1) + wait_time d))
                    sectors) = Some y"
  show "(\<forall>t. max_access_of d \<lparr>surface = 0, track = t, sector = 0\<rparr> = 0) \<longrightarrow>
      surface p = 0 \<longrightarrow> sector p = 0 \<longrightarrow> n = 0"
  proof (intro impI, rule ccontr)
    assume st: "\<forall>t. max_access_of d \<lparr>surface = 0, track = t, sector = 0\<rparr> = 0"
      and s: "surface p = 0" and c: "sector p = 0" and n: "n \<noteq> 0"
    have p: "p = \<lparr>surface = 0, track = track p, sector = 0\<rparr>" using s c by simp
    have ma: "max_access_of d p = 0" using st p by metis
    have al: "access_loop d ts 0 0 time n = (time, n)" for ts
      by (subst access_loop.simps) simp
    let ?p' = "\<lparr>surface = 0, track = track p + 1, sector = 0\<rparr>"
    have "tw d ?p' (time + (seek_time d (track p + 1) (track p + 1 + 1) + wait_time d)) n = Some y"
      using step n
      by (simp only: Let_def max_access_of_def[symmetric] ma al prod.case) simp
    then have "n = 0" using IH st by simp
    then show False using n by simp
  qed
qed

lemma track_walk_stuck:
  assumes "\<And>t. max_access_of d \<lparr>surface = 0, track = t, sector = 0\<rparr> = 0"
    and "n \<noteq> 0"
  shows "track_walk d \<lparr>surface = 0, track = t0, sector = 0\<rparr> time n = None"
proof (cases "track_walk d \<lparr>surface = 0, track = t0, sector = 0\<rparr> time n")
  case None
  then show ?thesis .
next
  case (Some y)
  then show ?thesis using track_walk_stuck_aux[OF Some] assms by simp
qed

lemma hdd_even_track_sector_of_all: "track_sector_of 2 2 t = 2 * (1 + t)"
proof -
  have b: "2 * unat t < 2 ^ 53" "2 + 2 * unat t < 2 ^ 53"
    using unsigned_less[of t, where 'a = nat] by simp_all
  have "dbl (2 * of_uint32 t) = real (2 * unat t)"
    using dbl_of_nat[OF b(1)] by (simp add: of_uint32_def)
  then have "dbl (of_uint32 2 + dbl (2 * of_uint32 t)) = real (2 + 2 * unat t)"
    using dbl_of_nat[OF b(2)] by (simp add: of_uint32_def)
  then have "track_sector_of 2 2 t = of_nat (2 + 2 * unat t)"
    unfolding track_sector_of_def by (simp only: to_uint32_of_nat)
  then show ?thesis by simp
qed

lemma uint32_overflow: "(4294967296 :: uint32) = 0"
proof -
  have "(4294967296 :: uint32) = 2 ^ LENGTH(32)" by simp
  also have "\<dots> = 0" by (rule word_exp_length_eq_0)
  finally show ?thesis .
qed

lemma hdd_even_max_access: "max_access_of hdd_even \<lparr>surface = 0, track = t, sector = 0\<rparr> = 0"
proof -
  have "(2 * (1 + t) - (0 + 1)) * 2147483648 + (2147483648 - 0) = (1 + t) * (4294967296 :: uint32)"
    by (simp add: algebra_simps)
  also have "\<dots> = 0"
    by (simp only: uint32_overflow mult_zero_right)
  finally show ?thesis
    by (simp add: max_access_of_def hdd_even_def hdd_even_track_sector_of_all)
qed

lemma hdd_even_walk: "track_walk hdd_even \<lparr>surface = 0, track = 0, sector = 0\<rparr> 0 1 = None"
  by (rule track_walk_stuck) (simp_all add: hdd_even_max_access)

lemma hdd_even_decode_0: "decode hdd_even 0 = Some (Some \<lparr>surface = 0, track = 0, sector = 0\<rparr>)"
  unfolding decode_def
  apply (subst track_loop.simps)
  apply (subst sector_loop.simps)
  apply (simp add: hdd_even_def hdd_even_track_sector_of dbl_eval to_uint64_def)
  done

lemma hdd_even_read: "HDD_read hdd_even 0 0 512 = None"
proof -
  have tp: "hdd_even\<lparr>target_pos := \<lparr>surface = 0, track = 0, sector = 0\<rparr>\<rparr> = hdd_even"
    by (simp add: hdd_even_def)
  have n: "(ucast (ucast ((512::uint64) div ucast (sector_size hdd_even)) :: uint32) :: uint64) = 1"
    by (simp add: hdd_even_def)
  have f: "target_pos hdd_even = \<lparr>surface = 0, track = 0, sector = 0\<rparr>"
    "sector_size hdd_even \<noteq> 0" by (simp_all add: hdd_even_def)
  have rt: "read_time hdd_even 1 = None"
    by (simp add: read_time_def f hdd_even_walk)
  show ?thesis
    unfolding HDD_read_def Let_def hdd_even_decode_0 n option.case tp rt
    by (simp add: f)
qed

lemma hdd_even_write: "HDD_write hdd_even 0 0 512 = None"
proof -
  have tp: "hdd_even\<lparr>target_pos := \<lparr>surface = 0, track = 0, sector = 0\<rparr>\<rparr> = hdd_even"
    by (simp add: hdd_even_def)
  have n: "(ucast (ucast ((512::uint64) div ucast (sector_size hdd_even)) :: uint32) :: uint64) = 1"
    by (simp add: hdd_even_def)
  have f: "target_pos hdd_even = \<lparr>surface = 0, track = 0, sector = 0\<rparr>"
    "sector_size hdd_even \<noteq> 0" by (simp_all add: hdd_even_def)
  have rt: "read_time hdd_even 1 = None"
    by (simp add: read_time_def f hdd_even_walk)
  show ?thesis
    unfolding HDD_write_def Let_def hdd_even_decode_0 n option.case tp rt
    by (simp add: f)
qed

section \<open>Claims\<close>

text \<open>
  C9. \<^verbatim>\<open>write\<close> costs what \<^verbatim>\<open>read\<close> costs: from the same device state and for the same
  time stamp, address and size, \<^verbatim>\<open>HDD::write\<close> returns the time stamp \<^verbatim>\<open>HDD::read\<close> returns
  and leaves the device, and so the head track, in the same state. (\<^verbatim>\<open>write\<close> calls
  \<^verbatim>\<open>read_time\<close>.)
\<close>

theorem write_same_as_read: "HDD_write d ts address sz = HDD_read d ts address sz"
  by (simp add: HDD_write_def HDD_read_def)

text \<open>
  C7, as the code has it. On a device whose sector size is not zero, when \<^verbatim>\<open>decode\<close>
  rejects the address, \<^verbatim>\<open>read\<close> and \<^verbatim>\<open>write\<close> return the time stamp they were given, as
  an ordinary result, and leave the device (and so the head track) unchanged. No failure is
  reported.
\<close>

theorem failed_decode_returns_timestamp:
  "sector_size d \<noteq> 0 \<Longrightarrow> decode d address = Some None \<Longrightarrow>
     HDD_read d ts address sz = Some (Inr ts, d) \<and> HDD_write d ts address sz = Some (Inr ts, d)"
  by (simp add: HDD_write_def HDD_read_def)

theorem failed_decode_returns_timestamp_witness:
  "sector_size hdd8 = 512 \<and> decode hdd8 15872 = Some None
     \<and> HDD_read hdd8 7 15872 512 = Some (Inr 7, hdd8)
     \<and> HDD_write hdd8 7 15872 512 = Some (Inr 7, hdd8)"
proof -
  have s: "sector_size hdd8 = 512" by (simp add: hdd8_def)
  then have z: "sector_size hdd8 \<noteq> 0" by simp
  show ?thesis
    using failed_decode_returns_timestamp[OF z hdd8_decode_out, of 7 512] hdd8_decode_out s
    by simp
qed

text \<open>
  C7 as stated fails: in the scenario, address \<open>31 * 512\<close> is rejected by \<^verbatim>\<open>decode\<close>, and
  \<^verbatim>\<open>read(0, 31 * 512, 512)\<close> returns the time stamp 0, not an \<open>OutOfRange\<close> failure. With
  a sector size of zero, which the constructor accepts, \<^verbatim>\<open>decode\<close> rejects address 512 too,
  but \<^verbatim>\<open>read\<close> and \<^verbatim>\<open>write\<close> do not return: they divide the size by the sector size
  before they call \<^verbatim>\<open>decode\<close>.
\<close>

theorem read_failure_not_reported:
  "decode hdd8 15872 = Some None \<and> HDD_read hdd8 0 15872 512 = Some (Inr 0, hdd8)
     \<and> HDD_read hdd8 0 15872 512 \<noteq> Some (Inl OutOfRange, hdd8)
     \<and> HDD_new 1 2 10 20 6000 0 0 0 False = Inr ([], hdd_nosize)
     \<and> decode hdd_nosize 512 = Some None
     \<and> HDD_read hdd_nosize 0 512 512 = None \<and> HDD_write hdd_nosize 0 512 512 = None"
proof -
  have "sector_size hdd8 \<noteq> 0" by (simp add: hdd8_def)
  then have "HDD_read hdd8 0 15872 512 = Some (Inr 0, hdd8)"
    using hdd8_decode_out by (simp add: HDD_read_def)
  then show ?thesis
    using hdd8_decode_out hdd_nosize_constructed hdd_nosize_decode(1) hdd_nosize_read by simp
qed




text \<open>
  C4, as the code has it. The constructor never fails: for every parameter set it returns a
  device with the head on track 0 and with the rpm and the sector size it was given. When
  the outermost track has no more sectors than the innermost it prints one error line and
  goes on; the track count, the rpm and the sector size are not checked.
\<close>

theorem construction_never_fails:
  "\<exists>d. HDD_new surfs tracks inner outer rpm' ss so spt vb
        = Inr (if outer \<le> inner then [error_line] else [], d)
      \<and> head_pos d = 0 \<and> rpm d = rpm' \<and> sector_size d = ss"
  by (simp add: HDD_new_def Let_def)

text \<open>
  C4 as stated fails: with 10 sectors on the innermost and on the outermost track the
  constructor prints the error line and returns a device, and with an rpm of 0 it returns a
  device without printing anything.
\<close>

theorem construction_warns_and_continues:
  "HDD_new 1 2 10 10 6000 512 0 0 False =
     Inr ([error_line],
       \<lparr>surfaces = 1, rpm = 6000, sector_size = 512, seek_overhead = 0,
        seek_per_track = 0, verbose = False, sectors_innermost_track = 10, sectors_diff = 0,
        capacity = 3022314549036573 / 295147905179352825856, head_pos = 0,
        target_pos = \<lparr>surface = 0, track = 0, sector = 0\<rparr>\<rparr>)
   \<and> HDD_new 1 2 10 20 0 512 0 0 False = Inr ([], hdd8\<lparr>rpm := 0\<rparr>)"
  by (simp add: HDD_new_def hdd8_def of_uint32_def track_sector_of_def to_uint32_def dbl_eval
      total_sector_loop.simps)

text \<open>
  C2, as the code has it. Let \<^verbatim>\<open>decode\<close> accept the address, let the sector count
  \<open>size / sector_size\<close>, rounded down, be below \<open>2^32\<close>, and let it be no larger than what
  the decoded position still gives on its track (\<^verbatim>\<open>max_access\<close>) plus the sectors of the
  tracks after it up to some track \<open>K\<close>, each with a positive sector count that, multiplied
  by the surface count, fits 32 bits. Then the transfer of that many sectors from the
  decoded position returns a duration and a final position, and \<^verbatim>\<open>read\<close> returns the time
  stamp plus the seek time from the head track to the decoded track, the rotational wait and
  that duration, with the head on the final track. In the scenario \<^verbatim>\<open>read(0, 0, 512)\<close>
  returns 0.006 and the head stays on track 0.
\<close>

theorem read_time_stamp:
  assumes dec: "decode d address = Some (Some pos)"
    and count: "unat sz div unat (sector_size d) < 4294967296"
    and valid: "unat (sector pos) < track_sectors d (unat (track pos))"
        "unat (surface pos) < unat (surfaces d)"
    and window: "unat (track pos) \<le> K" "K + 1 < 4294967296"
    and counts: "\<forall>t. unat (track pos) < t \<and> t \<le> K \<longrightarrow>
        0 < track_sectors d t \<and> track_sectors d t * unat (surfaces d) < 4294967296"
    and request: "unat sz div unat (sector_size d) \<le> unat (max_access_of d pos)
        + (first_block d (Suc K) - first_block d (Suc (unat (track pos))))"
  shows "(\<exists>duration final.
        track_walk (d\<lparr>target_pos := pos\<rparr>) pos 0 (sz div ucast (sector_size d))
          = Some (duration, final)
        \<and> HDD_read d ts address sz =
            Some (Inr (ts + seek_time d (head_pos d) (track pos) + wait_time d + duration),
                  d\<lparr>target_pos := pos, head_pos := track final\<rparr>))
    \<and> HDD_read hdd8 0 0 512 = Some (Inr (6 / 1000), hdd8) \<and> head_pos hdd8 = 0"
proof -
  let ?d = "d\<lparr>target_pos := pos\<rparr>"
  let ?n = "sz div ucast (sector_size d) :: uint64"
  let ?t0 = "unat (track pos)"
  note sc = sector_count_kept[OF count]
  have cnt': "\<And>t. ?t0 < t \<Longrightarrow> t \<le> K \<Longrightarrow>
      0 < track_sectors ?d t \<and> track_sectors ?d t * unat (surfaces ?d) < 4294967296"
    using counts by (simp add: track_sectors_def)
  have n': "unat ?n \<le> unat (max_access_of ?d pos)
      + (first_block ?d (Suc K) - first_block ?d (Suc ?t0))"
    using request by (simp only: first_block_target_pos sc(2)) (simp add: max_access_of_def)
  have "\<exists>time' p'. track_walk ?d pos 0 ?n = Some (time', p')
      \<and> ?t0 \<le> unat (track p') \<and> unat (track p') \<le> K"
    using window cnt' n' by (rule track_walk_returns)
  then obtain duration final where w: "track_walk ?d pos 0 ?n = Some (duration, final)"
    by blast
  have rt: "read_time ?d (ucast (ucast (sz div ucast (sector_size d)) :: uint32))
      = Some (duration, ?d\<lparr>head_pos := track final\<rparr>)"
    by (simp only: sc(1)) (simp add: read_time_def w)
  have "HDD_read d ts address sz
      = Some (Inr (ts + (seek_time d (head_pos d) (track pos) + wait_time d + duration)),
              ?d\<lparr>head_pos := track final\<rparr>)"
    using dec rt by (rule HDD_read_accepted)
  then have "HDD_read d ts address sz =
      Some (Inr (ts + seek_time d (head_pos d) (track pos) + wait_time d + duration),
            d\<lparr>target_pos := pos, head_pos := track final\<rparr>)"
    by (simp add: add.assoc)
  then show ?thesis using w hdd8_read_512 hdd8_fields(2) by blast
qed

text \<open>The scenario device, 31 sectors from address 0, with \<open>K = 2\<close>.\<close>

theorem read_time_stamp_witness:
  "decode hdd8 0 = Some (Some \<lparr>surface = 0, track = 0, sector = 0\<rparr>)
   \<and> unat (15872::uint64) div unat (sector_size hdd8) < 4294967296
   \<and> track_sectors hdd8 0 = 10 \<and> track_sectors hdd8 1 = 20 \<and> track_sectors hdd8 2 = 30
   \<and> unat (15872::uint64) div unat (sector_size hdd8)
        \<le> unat (max_access_of hdd8 \<lparr>surface = 0, track = 0, sector = 0\<rparr>)
          + (first_block hdd8 (Suc 2) - first_block hdd8 (Suc 0))
   \<and> (\<exists>duration final.
        track_walk (hdd8\<lparr>target_pos := \<lparr>surface = 0, track = 0, sector = 0\<rparr>\<rparr>)
          \<lparr>surface = 0, track = 0, sector = 0\<rparr> 0 ((15872::uint64) div ucast (sector_size hdd8))
          = Some (duration, final)
        \<and> HDD_read hdd8 0 0 15872 =
            Some (Inr (0 + seek_time hdd8 (head_pos hdd8) 0 + wait_time hdd8 + duration),
                  hdd8\<lparr>target_pos := \<lparr>surface = 0, track = 0, sector = 0\<rparr>,
                    head_pos := track final\<rparr>))"
proof -
  let ?p0 = "\<lparr>surface = 0, track = 0, sector = 0\<rparr> :: HDD_Position"
  have f: "surfaces hdd8 = 1" "sector_size hdd8 = 512" by (simp_all add: hdd8_def)
  have fb: "first_block hdd8 3 = 60" "first_block hdd8 (Suc 0) = 10"
    by (simp_all add: numeral_3_eq_3 hdd8_first_block del: first_block.simps)
  have h1: "unat (15872::uint64) div unat (sector_size hdd8) < 4294967296" by (simp add: f)
  have h2: "unat (track ?p0) \<le> 2" "(2::nat) + 1 < 4294967296" by simp_all
  have h3: "\<forall>t. unat (track ?p0) < t \<and> t \<le> 2 \<longrightarrow>
      0 < track_sectors hdd8 t \<and> track_sectors hdd8 t * unat (surfaces hdd8) < 4294967296"
    by (simp add: f hdd8_track_sectors_linear)
  have h4: "unat (sector ?p0) < track_sectors hdd8 (unat (track ?p0))"
    "unat (surface ?p0) < unat (surfaces hdd8)"
    by (simp_all add: f hdd8_track_sectors)
  have h5: "unat (15872::uint64) div unat (sector_size hdd8) \<le> unat (max_access_of hdd8 ?p0)
      + (first_block hdd8 (Suc 2) - first_block hdd8 (Suc (unat (track ?p0))))"
    by (simp add: hdd8_max_access fb f del: first_block.simps)
  have c: "track_sectors hdd8 0 = 10" "track_sectors hdd8 1 = 20" "track_sectors hdd8 2 = 30"
    by (simp_all add: hdd8_track_sectors_linear)
  show ?thesis
    using read_time_stamp[OF hdd8_decode_0 h1 h4 h2 h3 h5, of 0] hdd8_decode_0 h1 c h5
    by (simp add: hdd8_fields(2) del: first_block.simps)
qed

text \<open>
  C2 as stated fails for a sector count of \<open>2^32\<close> or more. The device with one surface and
  tracks of 3000000000 and 4000000000 sectors holds \<open>2^32 + 1\<close> sectors from block 0; their
  transfer takes 7294967297 / 400000000000 and ends on track 1. \<^verbatim>\<open>read\<close> stores the count
  in a \<^verbatim>\<open>uint32\<close>, charges the one sector that is left of it, and leaves the head on track
  0. It fails too where the transfer does not return: on the device with \<open>2^31\<close> surfaces
  and tracks of 2 and 4 sectors, \<^verbatim>\<open>read(0, 0, 512)\<close> does not return.
\<close>

theorem read_narrows_sector_count:
  "HDD_new 1 2 3000000000 4000000000 6000 512 0 0 False = Inr ([], hdd_big)
   \<and> decode hdd_big 0 = Some (Some \<lparr>surface = 0, track = 0, sector = 0\<rparr>)
   \<and> (4294967297 * 512 :: uint64) div ucast (sector_size hdd_big) = 4294967297
   \<and> track_walk hdd_big \<lparr>surface = 0, track = 0, sector = 0\<rparr> 0 4294967297
       = Some (7294967297 / 400000000000, \<lparr>surface = 0, track = 1, sector = 0\<rparr>)
   \<and> HDD_read hdd_big 0 0 (4294967297 * 512)
       = Some (Inr (1500000001 / 300000000000), hdd_big)
   \<and> 1500000001 / 300000000000
       \<noteq> 0 + seek_time hdd_big (head_pos hdd_big) 0 + wait_time hdd_big
           + 7294967297 / 400000000000
   \<and> head_pos hdd_big = 0
   \<and> HDD_new 2147483648 2 2 4 6000 512 0 0 False = Inr ([], hdd_even)
   \<and> decode hdd_even 0 = Some (Some \<lparr>surface = 0, track = 0, sector = 0\<rparr>)
   \<and> HDD_read hdd_even 0 0 512 = None"
  using hdd_big_constructed hdd_big_decode_0 hdd_big_walk_all hdd_big_read
    hdd_even_constructed hdd_even_decode_0 hdd_even_read
  by (simp add: hdd_big_times hdd_big_fields) (simp add: hdd_big_def)



text \<open>
  C6 fails on the code. The scenario device has tracks 0 and 1 and 30 sectors.
  \<^verbatim>\<open>read(0, 0, 31 * 512)\<close> asks for 31 sectors from block 0; the walk goes on to a track 2,
  which the device does not have, and the head is left there.
\<close>

theorem head_track_leaves_device:
  "HDD_new 1 2 10 20 6000 512 0 0 False = Inr ([], hdd8)
   \<and> HDD_read hdd8 0 0 (31 * 512) = Some (Inr (53 / 1500), hdd8\<lparr>head_pos := 2\<rparr>)
   \<and> \<not> head_pos (hdd8\<lparr>head_pos := 2\<rparr>) < 2"
  using hdd8_constructed hdd8_read_31 by simp

text \<open>
  C10, as the code has it. Take a device with at least one surface, a start position
  that is valid on its track, and a track \<open>K\<close> at or after the start track, which may lie
  beyond the last track of the device. If every track from the start track to \<open>K\<close> has a
  positive sector count that, multiplied by the surface count, fits the 32-bit
  \<^verbatim>\<open>max_access\<close>, and the request is no larger than what the start position and the tracks
  up to \<open>K\<close> hold, then the walk returns, on a track not after \<open>K\<close>, and so do
  \<^verbatim>\<open>read_time\<close> and \<^verbatim>\<open>write_time\<close>, and \<^verbatim>\<open>read\<close> and \<^verbatim>\<open>write\<close> from an address that
  \<^verbatim>\<open>decode\<close> maps to the start position (the sector size is then not zero). The start track
  gives at least one sector, and the tracks after it up to \<open>K\<close> hold at least one sector
  each: a request of \<open>n\<close> sectors always fits the \<open>n\<close> tracks after the start track.
\<close>

theorem transfer_loop_terminates:
  assumes surfs: "0 < surfaces d"
    and window: "unat (track p) \<le> K" "K + 1 < 4294967296"
    and counts: "\<forall>t. unat (track p) \<le> t \<and> t \<le> K \<longrightarrow>
        0 < track_sectors d t \<and> track_sectors d t * unat (surfaces d) < 4294967296"
    and valid: "unat (sector p) < track_sectors d (unat (track p))"
        "unat (surface p) < unat (surfaces d)"
    and request: "unat n \<le> unat (max_access_of d p)
        + (first_block d (Suc K) - first_block d (Suc (unat (track p))))"
  shows "0 < unat (max_access_of d p)
    \<and> K - unat (track p) \<le> first_block d (Suc K) - first_block d (Suc (unat (track p)))
    \<and> (\<exists>time' p'. track_walk d p time n = Some (time', p') \<and> unat (track p') \<le> K)
    \<and> (\<exists>r. read_time (d\<lparr>target_pos := p\<rparr>) n = Some r)
    \<and> (\<exists>r. write_time (d\<lparr>target_pos := p\<rparr>) n = Some r)
    \<and> (decode d address = Some (Some p)
          \<and> n = ucast (ucast (sz div ucast (sector_size d)) :: uint32)
        \<longrightarrow> (\<exists>r. HDD_read d ts address sz = Some r) \<and> (\<exists>r. HDD_write d ts address sz = Some r))"
proof -
  let ?t0 = "unat (track p)"
  let ?d = "d\<lparr>target_pos := p\<rparr>"
  let ?ts = "track_sector_of (sectors_innermost_track d) (sectors_diff d) (track p)"
  have Sn: "0 < unat (surfaces d)" using surfs by (simp add: word_less_nat_alt)
  have c0: "0 < track_sectors d ?t0" "track_sectors d ?t0 * unat (surfaces d) < 4294967296"
    using counts window(1) by simp_all
  have ma: "unat (max_access_of d p) =
      (unat ?ts - unat (sector p) - 1) * unat (surfaces d)
        + (unat (surfaces d) - unat (surface p))"
    using valid c0
    by (intro max_access_nat) (simp_all add: track_sectors_unat word_less_nat_alt word_le_nat_alt)
  then have progress: "0 < unat (max_access_of d p)" using valid(2) by simp
  have cnt: "\<And>t. ?t0 < t \<Longrightarrow> t \<le> K \<Longrightarrow>
      0 < track_sectors d t \<and> track_sectors d t * unat (surfaces d) < 4294967296"
    using counts by simp
  have each: "K - ?t0 \<le> first_block d (Suc K) - first_block d (Suc ?t0)"
    using window(1) cnt Sn by (intro track_count_le_blocks) simp_all
  have walk: "\<exists>time' p'. track_walk d p time n = Some (time', p')
      \<and> ?t0 \<le> unat (track p') \<and> unat (track p') \<le> K"
    using window cnt request by (rule track_walk_returns)
  have cnt': "\<And>t. ?t0 < t \<Longrightarrow> t \<le> K \<Longrightarrow>
      0 < track_sectors ?d t \<and> track_sectors ?d t * unat (surfaces ?d) < 4294967296"
    using cnt by (simp add: track_sectors_def)
  have n': "unat n \<le> unat (max_access_of ?d p)
      + (first_block ?d (Suc K) - first_block ?d (Suc ?t0))"
    using request by (simp only: first_block_target_pos) (simp add: max_access_of_def)
  have walk': "\<exists>time' p'. track_walk ?d p 0 n = Some (time', p')
      \<and> ?t0 \<le> unat (track p') \<and> unat (track p') \<le> K"
    using window cnt' n' by (rule track_walk_returns)
  then obtain time' p' where w: "track_walk ?d p 0 n = Some (time', p')" by blast
  have rt: "read_time ?d n = Some (time', ?d\<lparr>head_pos := track p'\<rparr>)"
    by (simp add: read_time_def w)
  have wt: "write_time ?d n = Some (time', ?d\<lparr>head_pos := track p'\<rparr>)"
    by (simp add: write_time_def w)
  have rw: "(\<exists>r. HDD_read d ts address sz = Some r) \<and> (\<exists>r. HDD_write d ts address sz = Some r)"
    if "decode d address = Some (Some p)"
      "n = ucast (ucast (sz div ucast (sector_size d)) :: uint32)"
    using that rt decode_accepted_sector_size[OF that(1)]
    by (simp add: HDD_read_def HDD_write_def Let_def)
  show ?thesis using progress each walk rt wt rw by blast
qed

text \<open>The scenario device, 31 sectors from block 0, one more than the device holds, with
  \<open>K = 2\<close>: the device has tracks 0 and 1.\<close>

theorem transfer_loop_terminates_witness:
  "0 < surfaces hdd8 \<and> track_sectors hdd8 2 = 30
   \<and> unat (31::uint64) \<le> unat (max_access_of hdd8 \<lparr>surface = 0, track = 0, sector = 0\<rparr>)
        + (first_block hdd8 (Suc 2) - first_block hdd8 (Suc 0))
   \<and> 0 < unat (max_access_of hdd8 \<lparr>surface = 0, track = 0, sector = 0\<rparr>)
   \<and> (\<exists>time' p'. track_walk hdd8 \<lparr>surface = 0, track = 0, sector = 0\<rparr> 0 31 = Some (time', p')
         \<and> unat (track p') \<le> 2)
   \<and> (\<exists>r. HDD_read hdd8 0 0 15872 = Some r) \<and> (\<exists>r. HDD_write hdd8 0 0 15872 = Some r)"
proof -
  let ?p0 = "\<lparr>surface = 0, track = 0, sector = 0\<rparr> :: HDD_Position"
  have f: "surfaces hdd8 = 1" "sector_size hdd8 = 512" by (simp_all add: hdd8_def)
  have fb: "first_block hdd8 3 = 60" "first_block hdd8 (Suc 0) = 10"
    by (simp_all add: numeral_3_eq_3 hdd8_first_block del: first_block.simps)
  have h1: "0 < surfaces hdd8" by (simp add: f)
  have h2: "unat (track ?p0) \<le> 2" "(2::nat) + 1 < 4294967296" by simp_all
  have h3: "\<forall>t. unat (track ?p0) \<le> t \<and> t \<le> 2 \<longrightarrow>
      0 < track_sectors hdd8 t \<and> track_sectors hdd8 t * unat (surfaces hdd8) < 4294967296"
    by (simp add: f hdd8_track_sectors_linear)
  have h4: "unat (sector ?p0) < track_sectors hdd8 (unat (track ?p0))"
    "unat (surface ?p0) < unat (surfaces hdd8)"
    by (simp_all add: f hdd8_track_sectors)
  have h5: "unat (31::uint64) \<le> unat (max_access_of hdd8 ?p0)
      + (first_block hdd8 (Suc 2) - first_block hdd8 (Suc (unat (track ?p0))))"
    by (simp add: hdd8_max_access fb del: first_block.simps)
  have c: "track_sectors hdd8 2 = 30" by (simp add: hdd8_track_sectors_linear)
  show ?thesis
    using transfer_loop_terminates[OF h1 h2 h3 h4 h5, of 0 0 15872 0] hdd8_decode_0 h1 c h5
    by (simp add: f del: first_block.simps)
qed

text \<open>
  C10 as stated fails. The device with \<open>2^31\<close> surfaces and two tracks of 2 and 4 sectors
  has at least one surface and positive, growing sector counts, and \<^verbatim>\<open>decode\<close> maps address
  0 to surface 0, track 0, slot 0. Every track \<open>t\<close> has \<open>2 + 2 * t\<close> sectors, so that
  \<^verbatim>\<open>max_access\<close>, a multiple of \<open>2^32\<close>, is 0 in 32 bits on every track: the walk takes no
  sector, moves on to the next track, and does not return, not even for one sector.
\<close>

theorem transfer_loop_stuck:
  "HDD_new 2147483648 2 2 4 6000 512 0 0 False = Inr ([], hdd_even)
   \<and> surfaces hdd_even = 2147483648
   \<and> track_sectors hdd_even 0 = 2 \<and> track_sectors hdd_even 1 = 4
   \<and> decode hdd_even 0 = Some (Some \<lparr>surface = 0, track = 0, sector = 0\<rparr>)
   \<and> max_access_of hdd_even \<lparr>surface = 0, track = 0, sector = 0\<rparr> = 0
   \<and> track_walk hdd_even \<lparr>surface = 0, track = 0, sector = 0\<rparr> 0 1 = None
   \<and> HDD_read hdd_even 0 0 512 = None \<and> HDD_write hdd_even 0 0 512 = None"
proof -
  have "surfaces hdd_even = 2147483648" by (simp add: hdd_even_def)
  moreover have "track_sectors hdd_even 0 = 2" "track_sectors hdd_even 1 = 4"
    by (simp_all add: track_sectors_def hdd_even_def hdd_even_track_sector_of)
  ultimately show ?thesis
    using hdd_even_constructed hdd_even_decode_0 hdd_even_max_access hdd_even_walk
      hdd_even_read hdd_even_write
    by simp
qed




text \<open>
  C5 fails on the code. The device with one surface and two tracks of 1 and 2 sectors of 512
  bytes holds \<open>3 * 512 = 1536\<close> bytes, and \<^verbatim>\<open>decode(1536)\<close> returns \<^verbatim>\<open>true\<close> with a position
  on track 2, which the device does not have: the check is \<^verbatim>\<open>address > capacity\<close>. (In the
  scenario the capacity in GB, multiplied back, rounds to 15359.999..., so there
  \<open>30 * 512\<close> is rejected.)
\<close>

theorem decode_accepts_capacity_address:
  "HDD_new 1 2 1 2 6000 512 0 0 False = Inr ([], hdd_small)
   \<and> first_block hdd_small (unat (2::uint32)) * unat (sector_size hdd_small) = 1536
   \<and> decode hdd_small 1536 = Some (Some \<lparr>surface = 0, track = 2, sector = 0\<rparr>)
   \<and> decode hdd8 (30 * 512) = Some None"
proof -
  have "first_block hdd_small 2 = 3"
    by (simp add: numeral_2_eq_2 hdd_small_first_block del: first_block.simps)
  then have "first_block hdd_small (unat (2::uint32)) * unat (sector_size hdd_small) = 1536"
    by (simp add: hdd_small_def)
  then show ?thesis
    using hdd_small_constructed hdd_small_decode_capacity hdd8_decode_capacity by simp
qed

end
